theory Spec2Isabelle
  imports Main "HOL-Library.Char_ord" "HOL-Library.List_Lexorder"
begin

text \<open>
  The four scripts of Image-Privacy-Tools (heic\_to\_jpg.py, sanitize\_heic\_to\_jpg.py,
  heic\_strip\_and\_convert\_to\_jpg.py, strip\_heic\_metadata.py) as functions on an explicit world:
  a file system and a log of effects. An exception is an \<open>Inl\<close> result that carries the world
  at the moment it was raised.
\<close>

section \<open>Python strings\<close>

text \<open>
  A Python \<open>str\<close> is held as the \<open>string\<close> of its UTF-8 bytes; a \<open>bytes\<close> value is a
  \<open>string\<close> as well.
\<close>

text \<open>
  \<open>str.strip()\<close> removes the white space of \<open>str.isspace\<close> at both ends: the code points
  9-13, 28-32, U+0085, U+00A0, U+1680, U+2000-U+200A, U+2028, U+2029, U+202F, U+205F and
  U+3000. \<open>ws_len s\<close> is the number of bytes of the white-space character at the head of
  \<open>s\<close> (0 when there is none), \<open>ws_tail s\<close> of the one at its end.
\<close>

definition ws_len :: "string \<Rightarrow> nat" where
  "ws_len s =
     (case s of
        [] \<Rightarrow> 0
      | a # r \<Rightarrow>
          (let x = (of_char a :: nat) in
           if (9 \<le> x \<and> x \<le> 13) \<or> (28 \<le> x \<and> x \<le> 32) then 1
           else if x = 194 then
             (case r of
                b # _ \<Rightarrow> if of_char b = (133 :: nat) \<or> of_char b = (160 :: nat) then 2 else 0
              | _ \<Rightarrow> 0)
           else if x = 225 then
             (case r of
                b # c # _ \<Rightarrow> if of_char b = (154 :: nat) \<and> of_char c = (128 :: nat) then 3 else 0
              | _ \<Rightarrow> 0)
           else if x = 226 then
             (case r of
                b # c # _ \<Rightarrow>
                  (let y = (of_char b :: nat); z = (of_char c :: nat) in
                   if (y = 128 \<and> ((128 \<le> z \<and> z \<le> 138) \<or> z = 168 \<or> z = 169 \<or> z = 175))
                      \<or> (y = 129 \<and> z = 159)
                   then 3 else 0)
              | _ \<Rightarrow> 0)
           else if x = 227 then
             (case r of
                b # c # _ \<Rightarrow> if of_char b = (128 :: nat) \<and> of_char c = (128 :: nat) then 3 else 0
              | _ \<Rightarrow> 0)
           else 0))"

definition ws_tail :: "string \<Rightarrow> nat" where
  "ws_tail s =
     (if 1 \<le> length s \<and> ws_len (drop (length s - 1) s) = 1 then 1
      else if 2 \<le> length s \<and> ws_len (drop (length s - 2) s) = 2 then 2
      else if 3 \<le> length s \<and> ws_len (drop (length s - 3) s) = 3 then 3
      else 0)"

function lstrip :: "string \<Rightarrow> string" where
  "lstrip s = (if ws_len s = 0 then s else lstrip (drop (ws_len s) s))"
  by pat_completeness auto
termination
proof (relation "measure length")
  show "wf (measure length)" by simp
next
  fix s :: string
  assume pos: "ws_len s \<noteq> 0"
  then have "s \<noteq> []" by (auto simp: ws_len_def)
  with pos show "(drop (ws_len s) s, s) \<in> measure length" by simp
qed

function rstrip :: "string \<Rightarrow> string" where
  "rstrip s = (if ws_tail s = 0 then s else rstrip (take (length s - ws_tail s) s))"
  by pat_completeness auto
termination
proof (relation "measure length")
  show "wf (measure length)" by simp
next
  fix s :: string
  assume pos: "ws_tail s \<noteq> 0"
  then have "s \<noteq> []" by (auto simp: ws_tail_def split: if_splits)
  with pos show "(take (length s - ws_tail s) s, s) \<in> measure length" by simp
qed

declare lstrip.simps [simp del] rstrip.simps [simp del]

definition strip :: "string \<Rightarrow> string" where
  "strip s = rstrip (lstrip s)"

text \<open>
  \<open>str.lower()\<close> on a \<open>str\<close> of ASCII characters folds \<open>A\<close>-\<open>Z\<close>. On any other \<open>str\<close> it
  follows the Unicode tables, which the environment supplies (see \<open>lower\<close> below).
\<close>

definition lower_char :: "char \<Rightarrow> char" where
  "lower_char c =
     (let n = (of_char c :: nat) in if 65 \<le> n \<and> n \<le> 90 then char_of (n + 32) else c)"

definition is_ascii :: "string \<Rightarrow> bool" where
  "is_ascii s = list_all (\<lambda>c. (of_char c :: nat) < 128) s"

text \<open>\<open>s.lstrip(".")\<close>: every leading dot goes.\<close>

definition lstrip_dot :: "string \<Rightarrow> string" where
  "lstrip_dot s = dropWhile (\<lambda>c. c = CHR ''.'') s"

text \<open>\<open>s.split(sep)\<close> for a one-character separator: always at least one piece.\<close>

fun str_split :: "char \<Rightarrow> string \<Rightarrow> string list" where
  "str_split sep [] = [[]]"
| "str_split sep (c # cs) =
     (if c = sep then [] # str_split sep cs
      else (case str_split sep cs of
              [] \<Rightarrow> [[c]]
            | piece # pieces \<Rightarrow> (c # piece) # pieces))"

text \<open>\<open>sep.join(xs)\<close>.\<close>

fun str_join :: "string \<Rightarrow> string list \<Rightarrow> string" where
  "str_join sep [] = []"
| "str_join sep [x] = x"
| "str_join sep (x # y # ys) = x @ sep @ str_join sep (y # ys)"

text \<open>\<open>str(n)\<close> for a counter, in decimal.\<close>

definition digit :: "nat \<Rightarrow> char" where
  "digit d = ''0123456789'' ! d"

function str_nat :: "nat \<Rightarrow> string" where
  "str_nat n = (if n < 10 then [digit n] else str_nat (n div 10) @ [digit (n mod 10)])"
  by pat_completeness auto
termination
  by (relation "measure (\<lambda>n. n)") auto

declare str_nat.simps [simp del]

text \<open>\<open>str(b)\<close> for a flag.\<close>

definition str_bool :: "bool \<Rightarrow> string" where
  "str_bool b = (if b then ''True'' else ''False'')"

subsection \<open>Decoding the bytes of a process's error stream\<close>

text \<open>
  \<open>seq_len bs\<close> is the length of the well-formed UTF-8 sequence at the head of \<open>bs\<close>, and 0
  when there is none. \<open>bytes.decode()\<close> raises \<open>UnicodeDecodeError\<close> at the first byte that
  starts no such sequence; \<open>bytes.decode(errors='ignore')\<close> drops that byte and goes on.
\<close>

definition in_range :: "nat \<Rightarrow> nat \<Rightarrow> char \<Rightarrow> bool" where
  "in_range lo hi c = (lo \<le> of_char c \<and> (of_char c :: nat) \<le> hi)"

definition cont :: "char \<Rightarrow> bool" where
  "cont c = in_range 128 191 c"

definition seq_len :: "string \<Rightarrow> nat" where
  "seq_len bs =
     (case bs of
        [] \<Rightarrow> 0
      | a # r \<Rightarrow>
          (let x = (of_char a :: nat) in
           if x < 128 then 1
           else if 194 \<le> x \<and> x \<le> 223 then
             (case r of b # _ \<Rightarrow> if cont b then 2 else 0 | _ \<Rightarrow> 0)
           else if 224 \<le> x \<and> x \<le> 239 then
             (case r of
                b # c # _ \<Rightarrow>
                  if in_range (if x = 224 then 160 else 128) (if x = 237 then 159 else 191) b
                     \<and> cont c
                  then 3 else 0
              | _ \<Rightarrow> 0)
           else if 240 \<le> x \<and> x \<le> 244 then
             (case r of
                b # c # d # _ \<Rightarrow>
                  if in_range (if x = 240 then 144 else 128) (if x = 244 then 143 else 191) b
                     \<and> cont c \<and> cont d
                  then 4 else 0
              | _ \<Rightarrow> 0)
           else 0))"

function decode_ignore :: "string \<Rightarrow> string" where
  "decode_ignore [] = []"
| "decode_ignore (a # r) =
     (if seq_len (a # r) = 0 then decode_ignore r
      else take (seq_len (a # r)) (a # r) @ decode_ignore (drop (seq_len (a # r)) (a # r)))"
  by pat_completeness auto
termination
  by (relation "measure length") auto

datatype exn =
    CalledProcessError string
  | UnicodeDecodeError
  | Exception string

definition decode :: "string \<Rightarrow> exn + string" where
  "decode bs = (if decode_ignore bs = bs then Inr bs else Inl UnicodeDecodeError)"

section \<open>Paths (pathlib)\<close>

text \<open>
  A path is the list of its components; \<open>name\<close> is the last one. \<open>suffix\<close> and \<open>with_suffix\<close>
  follow \<open>pathlib.PurePath\<close>: the suffix starts at the last dot of the name, unless that dot is
  the first or the last character of the name.
\<close>

type_synonym path = "string list"

definition name :: "path \<Rightarrow> string" where
  "name p = (if p = [] then [] else last p)"

definition suffix :: "string \<Rightarrow> string" where
  "suffix n =
     (let e = takeWhile (\<lambda>c. c \<noteq> CHR ''.'') (rev n) in
      if CHR ''.'' \<in> set n \<and> e \<noteq> [] \<and> length e + 1 < length n
      then CHR ''.'' # rev e else [])"

definition with_suffix :: "path \<Rightarrow> string \<Rightarrow> string + path" where
  "with_suffix p sfx =
     (if name p = [] then Inl (''has an empty name'')
      else Inr (butlast p @ [take (length (name p) - length (suffix (name p))) (name p) @ sfx]))"

definition path_str :: "path \<Rightarrow> string" where
  "path_str p = str_join ''/'' p"

text \<open>\<open>p.relative_to(root)\<close> raises \<open>ValueError\<close> when \<open>p\<close> is not below \<open>root\<close>.\<close>

definition relative_to :: "path \<Rightarrow> path \<Rightarrow> exn + path" where
  "relative_to p root =
     (if take (length root) p = root then Inr (drop (length root) p)
      else Inl (Exception ''is not in the subpath''))"

section \<open>The world the scripts act on\<close>

text \<open>
  The file system maps a path to a directory or to a regular file with its contents. The log
  records, in order, every effect of a run: a path handed out by \<open>discover\<close>, a line printed to
  standard output or to standard error, an external process started, an image opened, an
  output written, a file unlinked.
\<close>

datatype 'c node = Dir | File 'c

datatype event =
    Yield path
  | Stdout string
  | Stderr string
  | Exec "string list"
  | Opened path
  | Saved path
  | Unlinked path

record 'c world =
  fs :: "path \<rightharpoonup> 'c node"
  log :: "event list"

text \<open>
  What the scripts delegate: the Unicode tables of \<open>str.lower\<close>, the directory iterators of
  pathlib (the paths an iterator produces and, when it raises, the message of the exception
  that ends it), \<open>shutil.which\<close>, Pillow
  (\<open>Image.open\<close>, \<open>ImageOps.exif_transpose\<close>, \<open>getexif\<close>, \<open>Exif.tobytes\<close>,
  \<open>convert("RGB").save\<close>, the table \<open>ExifTags.TAGS\<close>), the ExifTool process and the operating
  system's refusal to unlink. Each is a parameter; an \<open>Inl\<close> is the message of the exception it
  raises. \<open>'c\<close> is the type of file contents, \<open>'i\<close> of decoded images.
\<close>

datatype 'c proc = Completed 'c | NonZero string | SpawnError string

record ('c, 'i) env =
  unicode_lower :: "string \<Rightarrow> string"
  iterdir :: "path \<Rightarrow> path list \<times> string option"
  rglob :: "path \<Rightarrow> path list \<times> string option"
  which :: "string \<Rightarrow> bool"
  img_open :: "'c \<Rightarrow> string + 'i"
  exif_transpose :: "'i \<Rightarrow> string + 'i"
  getexif :: "'i \<Rightarrow> (int \<times> string) list"
  tobytes :: "(int \<times> string) list \<Rightarrow> string"
  save_jpeg :: "path \<Rightarrow> 'i \<Rightarrow> int \<Rightarrow> string option \<Rightarrow> string + 'c"
  run_exiftool :: "string list \<Rightarrow> 'c \<Rightarrow> 'c proc"
  unlink_denied :: "path \<Rightarrow> string option"
  TAGS :: "(int \<times> string) list"

definition emit :: "event \<Rightarrow> 'c world \<Rightarrow> 'c world" where
  "emit e w = w\<lparr>log := log w @ [e]\<rparr>"

definition print :: "string \<Rightarrow> 'c world \<Rightarrow> 'c world" where
  "print s w = emit (Stdout s) w"

definition eprint :: "string \<Rightarrow> 'c world \<Rightarrow> 'c world" where
  "eprint s w = emit (Stderr s) w"

definition exists :: "'c world \<Rightarrow> path \<Rightarrow> bool" where
  "exists w p = (fs w p \<noteq> None)"

definition is_file :: "'c world \<Rightarrow> path \<Rightarrow> bool" where
  "is_file w p = (case fs w p of Some (File c) \<Rightarrow> True | _ \<Rightarrow> False)"

text \<open>
  \<open>p.unlink(missing_ok)\<close>: a missing path raises unless \<open>missing_ok\<close>; a directory or a path
  the system protects raises; otherwise the path is gone.
\<close>

definition unlink :: "('c, 'i) env \<Rightarrow> 'c world \<Rightarrow> path \<Rightarrow> bool \<Rightarrow> (string + unit) \<times> 'c world" where
  "unlink E w p missing_ok =
     (case fs w p of
        None \<Rightarrow> if missing_ok then (Inr (), w)
                else (Inl ''[Errno 2] No such file or directory'', w)
      | Some Dir \<Rightarrow> (Inl ''[Errno 21] Is a directory'', w)
      | Some (File c) \<Rightarrow>
          (case unlink_denied E p of
             Some msg \<Rightarrow> (Inl msg, w)
           | None \<Rightarrow> (Inr (), emit (Unlinked p) (w\<lparr>fs := (fs w)(p := None)\<rparr>))))"

definition image_open :: "('c, 'i) env \<Rightarrow> 'c world \<Rightarrow> path \<Rightarrow> (string + 'i) \<times> 'c world" where
  "image_open E w src =
     (case fs w src of
        Some (File c) \<Rightarrow> (img_open E c, emit (Opened src) w)
      | Some Dir \<Rightarrow> (Inl ''[Errno 21] Is a directory'', emit (Opened src) w)
      | None \<Rightarrow> (Inl ''[Errno 2] No such file or directory'', emit (Opened src) w))"

definition save :: "('c, 'i) env \<Rightarrow> 'c world \<Rightarrow> path \<Rightarrow> 'i \<Rightarrow> int \<Rightarrow> string option
    \<Rightarrow> (string + unit) \<times> 'c world" where
  "save E w dst im quality exif =
     (case save_jpeg E dst im quality exif of
        Inl e \<Rightarrow> (Inl e, w)
      | Inr c \<Rightarrow> (Inr (), emit (Saved dst) (w\<lparr>fs := (fs w)(dst \<mapsto> File c)\<rparr>)))"

section \<open>File discovery\<close>

definition lower :: "('c, 'i) env \<Rightarrow> string \<Rightarrow> string" where
  "lower E s = (if is_ascii s then map lower_char s else unicode_lower E s)"

text \<open>
  \<open>root.rglob("*") if recursive else root.iterdir()\<close>. A directory iterator of pathlib lists
  a directory once, from a snapshot (\<open>os.listdir\<close>, \<open>os.scandir\<close>) taken before the first of its
  paths is handed out, and the scripts create files only beside a source they were handed. So
  the paths of a run are paths of the file system at the start of the loop, each at most
  once; the environment gives their order, and whether the iteration ends with an exception
  (\<open>NotADirectoryError\<close>, \<open>PermissionError\<close>), which is raised in the \<open>for\<close> statement, outside
  the \<open>try\<close>.
\<close>

definition entries :: "('c, 'i) env \<Rightarrow> 'c world \<Rightarrow> path \<Rightarrow> bool \<Rightarrow> path list \<times> string option" where
  "entries E w root recursive =
     (case (if recursive then rglob E root else iterdir E root) of
        (ps, err) \<Rightarrow> (remdups (filter (exists w) ps), err))"

text \<open>
  \<open>discover\<close> is a generator: each path is tested when the loop reaches it, against the file
  system of that moment.
\<close>

definition discovered :: "('c, 'i) env \<Rightarrow> 'c world \<Rightarrow> string list \<Rightarrow> path \<Rightarrow> bool" where
  "discovered E w exts p =
     (is_file w p \<and> lstrip_dot (lower E (suffix (name p))) \<in> set exts)"

text \<open>The extension set of \<open>main\<close>, in the order of the tokens.\<close>

definition parse_exts :: "('c, 'i) env \<Rightarrow> string \<Rightarrow> string list" where
  "parse_exts E ext =
     map (\<lambda>e. lstrip_dot (lower E (strip e)))
       (filter (\<lambda>e. strip e \<noteq> []) (str_split CHR '','' ext))"

section \<open>heic\_to\_jpg.py: the metadata kept\<close>

text \<open>
  The keys and values of a Python dict are dynamically typed: an \<open>int\<close> key never equals a
  \<open>str\<close> key. \<open>TAG_MAP\<close> inverts \<open>ExifTags.TAGS\<close> (tag id to tag name), so its keys are names.
\<close>

datatype pyval = PNone | PInt int | PStr string

definition TAG_MAP :: "('c, 'i) env \<Rightarrow> (pyval \<times> pyval) list" where
  "TAG_MAP E = map (\<lambda>(k, v). (PStr v, PInt k)) (TAGS E)"

definition KEEP_TAG_NAMES :: "pyval set" where
  "KEEP_TAG_NAMES = {PStr ''DateTimeOriginal'', PStr ''CreateDate'', PStr ''DateTime''}"

text \<open>\<open>d.get(k)\<close>: the value stored last under \<open>k\<close>, or \<open>None\<close>.\<close>

definition dict_get :: "(pyval \<times> pyval) list \<Rightarrow> pyval \<Rightarrow> pyval" where
  "dict_get d k = (case map_of (rev d) k of None \<Rightarrow> PNone | Some v \<Rightarrow> v)"

text \<open>\<open>new[tag_id] = value\<close> on an \<open>Image.Exif\<close> mapping.\<close>

fun exif_set :: "(int \<times> string) list \<Rightarrow> int \<Rightarrow> string \<Rightarrow> (int \<times> string) list" where
  "exif_set [] k v = [(k, v)]"
| "exif_set ((k', v') # r) k v = (if k' = k then (k, v) # r else (k', v') # exif_set r k v)"

text \<open>The loop of \<open>build_exif_bytes\<close> over \<open>orig.items()\<close>.\<close>

fun copy_kept :: "('c, 'i) env \<Rightarrow> (int \<times> string) list \<Rightarrow> (int \<times> string) list
    \<Rightarrow> (int \<times> string) list" where
  "copy_kept E [] new = new"
| "copy_kept E ((tag_id, val) # rest) new =
     copy_kept E rest
       (if dict_get (TAG_MAP E) (PInt tag_id) \<in> KEEP_TAG_NAMES then exif_set new tag_id val
        else new)"

definition build_exif_bytes :: "('c, 'i) env \<Rightarrow> 'i \<Rightarrow> string option" where
  "build_exif_bytes E src_img =
     (let orig = getexif E src_img in
      if orig = [] then None
      else (let new = copy_kept E orig [] in
            if new \<noteq> [] then Some (tobytes E new) else None))"

text \<open>The \<open>exif\<close> keyword of \<open>save\<close>: passed only for a non-empty byte string.\<close>

definition exif_kwarg :: "string option \<Rightarrow> string option" where
  "exif_kwarg exif_bytes =
     (case exif_bytes of None \<Rightarrow> None | Some b \<Rightarrow> if b \<noteq> [] then Some b else None)"

section \<open>The convert step\<close>

definition arrow :: string where
  "arrow = [CHR 0xE2, CHR 0x86, CHR 0x92]"

text \<open>The three lines a convert function prints.\<close>

definition skip_line :: "path \<Rightarrow> string" where
  "skip_line dst = ''[SKIP] '' @ name dst @ '' already exists''"

definition ok_line :: "path \<Rightarrow> path \<Rightarrow> string" where
  "ok_line src dst = ''[OK] '' @ name src @ '' '' @ arrow @ '' '' @ name dst"

definition deleted_line :: "path \<Rightarrow> string" where
  "deleted_line src = ''      Deleted original '' @ name src"

text \<open>
  The \<open>with Image.open(src) as im:\<close> block that the three convert functions share: open,
  transpose by the stored orientation, encode and write, print the \<open>[OK]\<close> line. \<open>exif_of\<close>
  gives the \<open>exif\<close> keyword of \<open>save\<close>.
\<close>

definition with_image :: "('c, 'i) env \<Rightarrow> 'c world \<Rightarrow> path \<Rightarrow> path \<Rightarrow> int \<Rightarrow> ('i \<Rightarrow> string option)
    \<Rightarrow> (string + unit) \<times> 'c world" where
  "with_image E w src dst quality exif_of =
     (case image_open E w src of
        (Inl e, w1) \<Rightarrow> (Inl e, w1)
      | (Inr im0, w1) \<Rightarrow>
          (case exif_transpose E im0 of
             Inl e \<Rightarrow> (Inl e, w1)
           | Inr im \<Rightarrow>
               (case save E w1 dst im quality (exif_of im) of
                  (Inl e, w2) \<Rightarrow> (Inl e, w2)
                | (Inr u, w2) \<Rightarrow>
                    (Inr (), print (ok_line src dst) w2))))"

text \<open>The tail of the three convert functions: \<open>if delete: src.unlink(); print(...)\<close>.\<close>

definition delete_original :: "('c, 'i) env \<Rightarrow> 'c world \<Rightarrow> path \<Rightarrow> bool \<Rightarrow> (string + unit) \<times> 'c world" where
  "delete_original E w src delete =
     (if delete then
        (case unlink E w src False of
           (Inl e, w1) \<Rightarrow> (Inl e, w1)
         | (Inr u, w1) \<Rightarrow> (Inr (), print (deleted_line src) w1))
      else (Inr (), w))"

text \<open>\<open>convert\<close> of heic\_to\_jpg.py.\<close>

definition convert :: "('c, 'i) env \<Rightarrow> 'c world \<Rightarrow> path \<Rightarrow> int \<Rightarrow> bool \<Rightarrow> (string + unit) \<times> 'c world" where
  "convert E w src quality delete =
     (case with_suffix src ''.jpg'' of
        Inl e \<Rightarrow> (Inl e, w)
      | Inr dst \<Rightarrow>
          if exists w dst then (Inr (), print (skip_line dst) w)
          else (case with_image E w src dst quality (\<lambda>im. exif_kwarg (build_exif_bytes E im)) of
                  (Inl e, w1) \<Rightarrow> (Inl e, w1)
                | (Inr u, w1) \<Rightarrow> delete_original E w1 src delete))"

text \<open>\<open>convert\<close> of sanitize\_heic\_to\_jpg.py: no \<open>exif\<close> keyword.\<close>

definition sanitize_convert :: "('c, 'i) env \<Rightarrow> 'c world \<Rightarrow> path \<Rightarrow> int \<Rightarrow> bool
    \<Rightarrow> (string + unit) \<times> 'c world" where
  "sanitize_convert E w src quality delete =
     (case with_suffix src ''.jpg'' of
        Inl e \<Rightarrow> (Inl e, w)
      | Inr dst \<Rightarrow>
          if exists w dst then (Inr (), print (skip_line dst) w)
          else (case with_image E w src dst quality (\<lambda>im. None) of
                  (Inl e, w1) \<Rightarrow> (Inl e, w1)
                | (Inr u, w1) \<Rightarrow> delete_original E w1 src delete))"

text \<open>
  \<open>convert_to_jpg\<close> of heic\_strip\_and\_convert\_to\_jpg.py: on the skip path the source is
  unlinked too (\<open>missing_ok=True\<close>) when originals are deleted.
\<close>

definition convert_to_jpg :: "('c, 'i) env \<Rightarrow> 'c world \<Rightarrow> path \<Rightarrow> int \<Rightarrow> bool
    \<Rightarrow> (string + unit) \<times> 'c world" where
  "convert_to_jpg E w src quality delete_orig =
     (case with_suffix src ''.jpg'' of
        Inl e \<Rightarrow> (Inl e, w)
      | Inr dst \<Rightarrow>
          if exists w dst then
            (let w1 = print (skip_line dst) w in
             if delete_orig then
               (case unlink E w1 src True of
                  (Inl e, w2) \<Rightarrow> (Inl e, w2)
                | (Inr u, w2) \<Rightarrow> (Inr (), w2))
             else (Inr (), w1))
          else (case with_image E w src dst quality (\<lambda>im. None) of
                  (Inl e, w1) \<Rightarrow> (Inl e, w1)
                | (Inr u, w1) \<Rightarrow> delete_original E w1 src delete_orig))"

section \<open>The external metadata strip\<close>

text \<open>
  \<open>subprocess.run(argv, check=True, ...)\<close> on a file: the process is started, and either
  rewrites the file in place, or exits non-zero (\<open>CalledProcessError\<close>, with the bytes of its
  error stream), or cannot be started at all (\<open>OSError\<close>). ExifTool exits non-zero on a path
  that is no regular file.
\<close>

definition run_tool :: "('c, 'i) env \<Rightarrow> 'c world \<Rightarrow> string list \<Rightarrow> path \<Rightarrow> (exn + unit) \<times> 'c world" where
  "run_tool E w argv file =
     (let w1 = emit (Exec argv) w in
      case fs w file of
        Some (File c) \<Rightarrow>
          (case run_exiftool E argv c of
             Completed c' \<Rightarrow> (Inr (), w1\<lparr>fs := (fs w1)(file \<mapsto> File c')\<rparr>)
           | NonZero err \<Rightarrow> (Inl (CalledProcessError err), w1)
           | SpawnError msg \<Rightarrow> (Inl (Exception msg), w1))
      | _ \<Rightarrow> (Inl (CalledProcessError ''Error: File not found''), w1))"

text \<open>\<open>strip_all_metadata\<close> of heic\_strip\_and\_convert\_to\_jpg.py.\<close>

definition strip_all_metadata :: "('c, 'i) env \<Rightarrow> 'c world \<Rightarrow> path \<Rightarrow> (exn + unit) \<times> 'c world" where
  "strip_all_metadata E w file =
     run_tool E w [''exiftool'', ''-overwrite_original'', ''-all='', path_str file] file"

text \<open>\<open>strip_metadata\<close> of strip\_heic\_metadata.py.\<close>

definition strip_metadata :: "('c, 'i) env \<Rightarrow> 'c world \<Rightarrow> path \<Rightarrow> bool \<Rightarrow> (exn + unit) \<times> 'c world" where
  "strip_metadata E w file keep_dt =
     (if keep_dt then
        run_tool E w
          [''exiftool'', ''-overwrite_original'', ''-all='', ''-tagsfromfile'', ''@'',
           ''-datetimeoriginal'', ''-createdate'', ''-modifydate'', path_str file] file
      else run_tool E w [''exiftool'', ''-overwrite_original'', ''-all='', path_str file] file)"

definition exiftool_available :: "('c, 'i) env \<Rightarrow> bool" where
  "exiftool_available E = which E ''exiftool''"

section \<open>The four entry points\<close>

record args =
  directory :: path
  recursive :: bool
  quality :: int
  ext :: string
  delete :: bool
  keep :: bool
  keep_datetimes :: bool

text \<open>
  How a run ends: it returns from \<open>main\<close>; \<open>parser.error\<close> (a usage error, status 2);
  \<open>sys.exit\<close> with a message (status 1); or an exception nobody caught.
\<close>

datatype exit = Finished | UsageError string | SysExit string | Uncaught exn

definition plural :: "nat \<Rightarrow> string" where
  "plural n = (if n \<noteq> 1 then ''s'' else [])"

subsection \<open>heic\_to\_jpg.py and sanitize\_heic\_to\_jpg.py\<close>

text \<open>
  The loop of \<open>main\<close>, the same text in both scripts, over the convert function of each:
  \<open>try: convert(...); total += 1\<close>, \<open>except Exception as exc:\<close> print the \<open>[ERROR]\<close> line.
\<close>

fun convert_files :: "('c, 'i) env \<Rightarrow> ('c world \<Rightarrow> path \<Rightarrow> (string + unit) \<times> 'c world)
    \<Rightarrow> string list \<Rightarrow> path list \<Rightarrow> nat \<Rightarrow> 'c world \<Rightarrow> nat \<times> 'c world" where
  "convert_files E conv exts [] tot w = (tot, w)"
| "convert_files E conv exts (src # rest) tot w =
     (if discovered E w exts src then
        (case conv (emit (Yield src) w) src of
           (Inr u, w1) \<Rightarrow> convert_files E conv exts rest (tot + 1) w1
         | (Inl exc, w1) \<Rightarrow>
             convert_files E conv exts rest tot
               (eprint (''[ERROR] '' @ name src @ '': '' @ exc) w1))
      else convert_files E conv exts rest tot w)"

definition converted_summary :: "nat \<Rightarrow> string" where
  "converted_summary tot =
     (if tot = 0 then ''No matching files converted (review [ERROR] lines).''
      else ''Done. Converted '' @ str_nat tot @ '' file'' @ plural tot @ ''.'')"

definition convert_main :: "('c world \<Rightarrow> path \<Rightarrow> (string + unit) \<times> 'c world) \<Rightarrow> ('c, 'i) env \<Rightarrow> args
    \<Rightarrow> 'c world \<Rightarrow> exit \<times> 'c world" where
  "convert_main conv E a w =
     (if \<not> exists w (directory a) then
        (UsageError (path_str (directory a) @ '' does not exist.''), w)
      else if \<not> (1 \<le> quality a \<and> quality a \<le> 100) then
        (UsageError ''--quality must be between 1 and 100.'', w)
      else if parse_exts E (ext a) = [] then
        (UsageError ''--ext yielded no valid extensions.'', w)
      else
        (case entries E w (directory a) (recursive a) of
           (es, err) \<Rightarrow>
             (case convert_files E conv (parse_exts E (ext a)) es 0 w of
                (tot, w1) \<Rightarrow>
                  (case err of
                     Some msg \<Rightarrow> (Uncaught (Exception msg), w1)
                   | None \<Rightarrow> (Finished, print (converted_summary tot) w1)))))"

definition heic_to_jpg_main :: "('c, 'i) env \<Rightarrow> args \<Rightarrow> 'c world \<Rightarrow> exit \<times> 'c world" where
  "heic_to_jpg_main E a w =
     convert_main (\<lambda>w src. convert E w src (quality a) (delete a)) E a w"

definition sanitize_main :: "('c, 'i) env \<Rightarrow> args \<Rightarrow> 'c world \<Rightarrow> exit \<times> 'c world" where
  "sanitize_main E a w =
     convert_main (\<lambda>w src. sanitize_convert E w src (quality a) (delete a)) E a w"

subsection \<open>heic\_strip\_and\_convert\_to\_jpg.py\<close>

text \<open>The body of the \<open>try\<close>: strip, then convert.\<close>

definition strip_then_convert :: "('c, 'i) env \<Rightarrow> 'c world \<Rightarrow> path \<Rightarrow> int \<Rightarrow> bool
    \<Rightarrow> (exn + unit) \<times> 'c world" where
  "strip_then_convert E w heic q delete_originals =
     (case strip_all_metadata E w heic of
        (Inl exc, w1) \<Rightarrow> (Inl exc, w1)
      | (Inr u, w1) \<Rightarrow>
          (case convert_to_jpg E w1 heic q delete_originals of
             (Inl msg, w2) \<Rightarrow> (Inl (Exception msg), w2)
           | (Inr u, w2) \<Rightarrow> (Inr (), w2)))"

text \<open>\<open>str(exc)\<close>; only the message of a plain exception is ever printed.\<close>

definition str_exn :: "exn \<Rightarrow> string" where
  "str_exn exc =
     (case exc of
        Exception msg \<Rightarrow> msg
      | CalledProcessError err \<Rightarrow> ''Command returned non-zero exit status''
      | UnicodeDecodeError \<Rightarrow> ''codec can't decode byte'')"

text \<open>
  The two \<open>except\<close> clauses. The first decodes the error stream strictly, so the handler
  itself can raise; an exception raised in a handler is not caught by the clause beside it.
\<close>

definition report :: "path \<Rightarrow> exn \<Rightarrow> 'c world \<Rightarrow> (exn + unit) \<times> 'c world" where
  "report heic exc w =
     (case exc of
        CalledProcessError err \<Rightarrow>
          (case decode err of
             Inl e \<Rightarrow> (Inl e, w)
           | Inr s \<Rightarrow>
               (Inr (), eprint (''[ERROR] '' @ name heic @ '': ExifTool '' @ arrow @ '' '' @ strip s) w))
      | _ \<Rightarrow> (Inr (), eprint (''[ERROR] '' @ name heic @ '': '' @ str_exn exc) w))"

fun strip_convert_files :: "('c, 'i) env \<Rightarrow> int \<Rightarrow> bool \<Rightarrow> string list \<Rightarrow> path list \<Rightarrow> nat \<Rightarrow> 'c world
    \<Rightarrow> (exn + nat) \<times> 'c world" where
  "strip_convert_files E q del exts [] tot w = (Inr tot, w)"
| "strip_convert_files E q del exts (heic # rest) tot w =
     (if discovered E w exts heic then
        (case strip_then_convert E (emit (Yield heic) w) heic q del of
           (Inr u, w1) \<Rightarrow> strip_convert_files E q del exts rest (tot + 1) w1
         | (Inl exc, w1) \<Rightarrow>
             (case report heic exc w1 of
                (Inl e, w2) \<Rightarrow> (Inl e, w2)
              | (Inr u, w2) \<Rightarrow> strip_convert_files E q del exts rest tot w2))
      else strip_convert_files E q del exts rest tot w)"

definition processed_summary :: "nat \<Rightarrow> string" where
  "processed_summary tot =
     (if tot = 0 then
        ''No matching files processed '' @ [CHR 0xE2, CHR 0x80, CHR 0x94]
          @ '' check [ERROR] messages above.''
      else ''Done. Processed '' @ str_nat tot @ '' file'' @ plural tot @ ''.'')"

definition strip_convert_main :: "('c, 'i) env \<Rightarrow> args \<Rightarrow> 'c world \<Rightarrow> exit \<times> 'c world" where
  "strip_convert_main E a w =
     (if \<not> exists w (directory a) then
        (UsageError (path_str (directory a) @ '' does not exist.''), w)
      else if \<not> (1 \<le> quality a \<and> quality a \<le> 100) then
        (UsageError ''--quality must be between 1 and 100.'', w)
      else if \<not> exiftool_available E then
        (SysExit ''Error: ExifTool not found (install via brew / apt / choco).'', w)
      else if parse_exts E (ext a) = [] then
        (UsageError ''--ext yielded no valid extensions.'', w)
      else
        (case entries E w (directory a) (recursive a) of
           (es, err) \<Rightarrow>
             (case strip_convert_files E (quality a) (\<not> keep a) (parse_exts E (ext a)) es 0 w of
                (Inl exc, w1) \<Rightarrow> (Uncaught exc, w1)
              | (Inr tot, w1) \<Rightarrow>
                  (case err of
                     Some msg \<Rightarrow> (Uncaught (Exception msg), w1)
                   | None \<Rightarrow> (Finished, print (processed_summary tot) w1)))))"

subsection \<open>strip\_heic\_metadata.py\<close>

text \<open>
  Only \<open>CalledProcessError\<close> is caught in this loop; \<open>count += 1\<close> stands before
  \<open>relative_to\<close> and the \<open>[OK]\<close> line. \<open>list(discover(...))\<close> runs the iterator to its end
  before the first file is stripped, so an exception of the iterator ends \<open>main\<close> there.
\<close>

fun strip_files :: "('c, 'i) env \<Rightarrow> path \<Rightarrow> bool \<Rightarrow> path list \<Rightarrow> nat \<Rightarrow> 'c world
    \<Rightarrow> (exn + nat) \<times> 'c world" where
  "strip_files E root keep_dt [] count w = (Inr count, w)"
| "strip_files E root keep_dt (f # rest) count w =
     (case strip_metadata E w f keep_dt of
        (Inr u, w1) \<Rightarrow>
          (case relative_to f root of
             Inl e \<Rightarrow> (Inl e, w1)
           | Inr rel \<Rightarrow>
               strip_files E root keep_dt rest (count + 1)
                 (print (''[OK] Stripped metadata from '' @ path_str rel) w1))
      | (Inl (CalledProcessError err), w1) \<Rightarrow>
          strip_files E root keep_dt rest count
            (eprint (''[ERROR] '' @ path_str f @ '': '' @ strip (decode_ignore err)) w1)
      | (Inl exc, w1) \<Rightarrow> (Inl exc, w1))"

definition no_files_message :: "string list \<Rightarrow> path \<Rightarrow> bool \<Rightarrow> string" where
  "no_files_message exts root rec =
     ''No files with extensions '' @ str_join '', '' (sort (remdups exts)) @ '' found in ''
       @ path_str root @ '' (recursive='' @ str_bool rec @ '').''"

definition strip_main :: "('c, 'i) env \<Rightarrow> args \<Rightarrow> 'c world \<Rightarrow> exit \<times> 'c world" where
  "strip_main E a w =
     (if \<not> exists w (directory a) then
        (UsageError (''Directory '' @ path_str (directory a) @ '' does not exist.''), w)
      else if \<not> exiftool_available E then
        (SysExit ''Error: ExifTool not found. Install it first (e.g. 'brew install exiftool').'', w)
      else if parse_exts E (ext a) = [] then
        (UsageError (''--ext yielded no valid extensions '' @ [CHR 0xE2, CHR 0x80, CHR 0x93]
           @ '' give at least one.''), w)
      else
        (let exts = parse_exts E (ext a);
             listing = entries E w (directory a) (recursive a);
             files = filter (discovered E w exts) (fst listing);
             w0 = fold (\<lambda>f. emit (Yield f)) files w
         in if snd listing \<noteq> None then
              (Uncaught (Exception (case snd listing of Some msg \<Rightarrow> msg | None \<Rightarrow> [])), w0)
            else if files = [] then
              (Finished, print (no_files_message exts (directory a) (recursive a)) w0)
            else
              (case strip_files E (directory a) (keep_datetimes a) files 0 w0 of
                 (Inl exc, w1) \<Rightarrow> (Uncaught exc, w1)
               | (Inr count, w1) \<Rightarrow>
                   (Finished,
                    print (''Done. Processed '' @ str_nat count @ '' file'' @ plural count @ ''.'') w1))))"

section \<open>A test environment\<close>

text \<open>
  A small concrete instance of the delegated parts, for evaluating the scripts on examples.
  Contents and images are strings. The contents \<open>''corrupt''\<close> cannot be opened, stripped or
  not. ExifTool exits non-zero on the contents \<open>''locked''\<close>, with an error stream that is not
  UTF-8, and on the contents \<open>''readonly''\<close>, with a plain message. \<open>ExifTags.TAGS\<close> holds
  Pillow's entries for the time stamps. A file named \<open>pinned.heic\<close> cannot be unlinked. Both
  iterators hand out \<open>listing\<close> and end normally. The names of the examples are ASCII, so
  the Unicode tables are never consulted.
\<close>

definition test_env :: "path list \<Rightarrow> (string, string) env" where
  "test_env listing =
     \<lparr> unicode_lower = (\<lambda>s. s),
       iterdir = (\<lambda>root. (listing, None)),
       rglob = (\<lambda>root. (listing, None)),
       which = (\<lambda>prog. prog = ''exiftool''),
       img_open = (\<lambda>c. if c = ''corrupt'' \<or> c = ''stripped corrupt''
                        then Inl ''cannot identify image file'' else Inr c),
       exif_transpose = (\<lambda>im. Inr im),
       getexif = (\<lambda>im. if im = ''dated'' then [(306, ''2025:05:25 10:00:00''), (271, ''Apple'')]
                        else []),
       tobytes = (\<lambda>ex. ''Exif'' @ concat (map snd ex)),
       save_jpeg = (\<lambda>dst im q ex. Inr (''JPEG '' @ im @ (case ex of None \<Rightarrow> [] | Some b \<Rightarrow> '' + '' @ b))),
       run_exiftool = (\<lambda>argv c. if c = ''locked'' then NonZero [CHR 0xFF]
                                 else if c = ''readonly'' then NonZero ''Error: not writable''
                                 else Completed (''stripped '' @ c)),
       unlink_denied = (\<lambda>p. if name p = ''pinned.heic'' then Some ''[Errno 13] Permission denied''
                             else None),
       TAGS = [(306, ''DateTime''), (36867, ''DateTimeOriginal''), (36868, ''DateTimeDigitized''),
               (271, ''Make'')] \<rparr>"

text \<open>
  Four directories \<open>d\<close>: one with a fresh image, an image whose JPEG is already there and a
  file that is no image; one with files ExifTool fails on, a file that cannot be unlinked and
  a sound one; one with a corrupt and a sound image of the same stem; one where the
  destination of an image is a directory.
\<close>

definition test_world :: "string world" where
  "test_world =
     \<lparr> fs = [[''d''] \<mapsto> Dir,
              [''d'', ''new.heic''] \<mapsto> File ''dated'',
              [''d'', ''old.heic''] \<mapsto> File ''img'',
              [''d'', ''old.jpg''] \<mapsto> File ''earlier output'',
              [''d'', ''bad.heic''] \<mapsto> File ''corrupt''],
       log = [] \<rparr>"

definition test_listing :: "path list" where
  "test_listing =
     [[''d'', ''new.heic''], [''d'', ''old.heic''], [''d'', ''old.jpg''], [''d'', ''bad.heic'']]"

definition test_args :: args where
  "test_args =
     \<lparr> directory = [''d''], recursive = False, quality = 90, ext = ''heic,heif'',
       delete = False, keep = False, keep_datetimes = False \<rparr>"


definition test_world_tool :: "string world" where
  "test_world_tool =
     \<lparr> fs = [[''d''] \<mapsto> Dir,
              [''d'', ''locked.heic''] \<mapsto> File ''locked'',
              [''d'', ''ro.heic''] \<mapsto> File ''readonly'',
              [''d'', ''ro.jpg''] \<mapsto> File ''earlier output'',
              [''d'', ''pinned.heic''] \<mapsto> File ''img'',
              [''d'', ''pinned.jpg''] \<mapsto> File ''earlier output'',
              [''d'', ''new.heic''] \<mapsto> File ''dated''],
       log = [] \<rparr>"

definition test_world_twins :: "string world" where
  "test_world_twins =
     \<lparr> fs = [[''d''] \<mapsto> Dir,
              [''d'', ''a.heic''] \<mapsto> File ''corrupt'',
              [''d'', ''a.heif''] \<mapsto> File ''img''],
       log = [] \<rparr>"

definition test_world_dir :: "string world" where
  "test_world_dir =
     \<lparr> fs = [[''d''] \<mapsto> Dir,
              [''d'', ''shot.heic''] \<mapsto> File ''img'',
              [''d'', ''shot.jpg''] \<mapsto> Dir],
       log = [] \<rparr>"

section \<open>Reading the log\<close>

text \<open>
  Counts over a stretch of the log: the files \<open>discover\<close> handed out, the lines written to
  standard error (the scripts write nothing there but one \<open>[ERROR]\<close> line for a file that
  failed), the outputs written to a path and the unlinks of a path. A line printed for one
  file starts with a bracket or with a blank; the summary lines start with a letter.
\<close>

definition yields :: "event list \<Rightarrow> nat" where
  "yields evs = length (filter (\<lambda>e. case e of Yield p \<Rightarrow> True | _ \<Rightarrow> False) evs)"

definition errors :: "event list \<Rightarrow> nat" where
  "errors evs = length (filter (\<lambda>e. case e of Stderr s \<Rightarrow> True | _ \<Rightarrow> False) evs)"

definition saves :: "path \<Rightarrow> event list \<Rightarrow> nat" where
  "saves d evs = length (filter (\<lambda>e. e = Saved d) evs)"

definition unlinks :: "path \<Rightarrow> event list \<Rightarrow> nat" where
  "unlinks d evs = length (filter (\<lambda>e. e = Unlinked d) evs)"

definition file_line :: "string \<Rightarrow> bool" where
  "file_line s = (take 1 s = ''['' \<or> take 1 s = '' '')"

definition file_lines :: "event list \<Rightarrow> bool" where
  "file_lines evs = list_all (\<lambda>e. case e of Stdout s \<Rightarrow> file_line s | _ \<Rightarrow> True) evs"

section \<open>Reading a run\<close>

text \<open>
  Whether the \<open>i\<close>-th path of a run returns: in the world the loop has reached when it comes
  to that path, the path is discovered and its transform returns without raising.
  \<open>count_returns\<close> counts the positions below \<open>k\<close> with that property.
\<close>

definition returns_at :: "('c, 'i) env \<Rightarrow> ('c world \<Rightarrow> path \<Rightarrow> (string + unit) \<times> 'c world)
    \<Rightarrow> string list \<Rightarrow> path list \<Rightarrow> nat \<Rightarrow> 'c world \<Rightarrow> nat \<Rightarrow> bool" where
  "returns_at E conv exts es tot w i =
     (case convert_files E conv exts (take i es) tot w of
        (t, w1) \<Rightarrow>
          discovered E w1 exts (es ! i)
          \<and> fst (conv (emit (Yield (es ! i)) w1) (es ! i)) = Inr ())"

definition strip_convert_returns_at :: "('c, 'i) env \<Rightarrow> int \<Rightarrow> bool \<Rightarrow> string list \<Rightarrow> path list
    \<Rightarrow> nat \<Rightarrow> 'c world \<Rightarrow> nat \<Rightarrow> bool" where
  "strip_convert_returns_at E q del exts es tot w i =
     (case strip_convert_files E q del exts (take i es) tot w of
        (Inr t, w1) \<Rightarrow>
          discovered E w1 exts (es ! i)
          \<and> fst (strip_then_convert E (emit (Yield (es ! i)) w1) (es ! i) q del) = Inr ()
      | (Inl e, w1) \<Rightarrow> False)"

definition strip_returns_at :: "('c, 'i) env \<Rightarrow> path \<Rightarrow> bool \<Rightarrow> path list \<Rightarrow> nat \<Rightarrow> 'c world
    \<Rightarrow> nat \<Rightarrow> bool" where
  "strip_returns_at E root keep_dt es count w i =
     (case strip_files E root keep_dt (take i es) count w of
        (Inr t, w1) \<Rightarrow> fst (strip_metadata E w1 (es ! i) keep_dt) = Inr ()
      | (Inl e, w1) \<Rightarrow> False)"

definition count_returns :: "(nat \<Rightarrow> bool) \<Rightarrow> nat \<Rightarrow> nat" where
  "count_returns P k = length (filter P [0..<k])"

section \<open>Argument validation\<close>




text \<open>
  The extension set is empty exactly when every token is blank, that is, made of white space
  only. A lone dot is not blank: it gives the set that holds the empty extension, which
  passes the test.
\<close>

lemma parse_exts_empty_iff:
  "parse_exts E s = [] \<longleftrightarrow> (\<forall>t \<in> set (str_split CHR '','' s). strip t = [])"
  by (auto simp: parse_exts_def filter_empty_conv)

lemma parse_exts_dot: "parse_exts E ''.'' = [[]]"
  by code_simp

text \<open>A token of white space outside ASCII (here U+00A0 and U+2003) is blank as well.\<close>

lemma parse_exts_unicode_blank:
  "parse_exts E ([CHR 0xC2, CHR 0xA0] @ '','' @ [CHR 0xE2, CHR 0x80, CHR 0x83]) = []"
  by code_simp



section \<open>The metadata kept by heic\_to\_jpg.py\<close>

lemma TAG_MAP_int_key: "map_of (rev (TAG_MAP E)) (PInt k) = None"
proof -
  have "PInt k \<notin> fst ` set (TAG_MAP E)"
    by (auto simp: TAG_MAP_def)
  then show ?thesis
    by (simp add: map_of_eq_None_iff)
qed

lemma lookup_never_kept: "dict_get (TAG_MAP E) (PInt k) \<notin> KEEP_TAG_NAMES"
  by (simp add: dict_get_def TAG_MAP_int_key KEEP_TAG_NAMES_def)

lemma copy_kept_nothing: "copy_kept E orig new = new"
  by (induction orig arbitrary: new) (auto simp: lookup_never_kept)

text \<open>
  Whatever the source image holds, \<open>build_exif_bytes\<close> returns \<open>None\<close>: \<open>TAG_MAP\<close> is keyed
  by tag name and is asked for a tag id, so no entry passes the test.
\<close>

lemma build_exif_bytes_None: "build_exif_bytes E im = None"
  by (simp add: build_exif_bytes_def Let_def copy_kept_nothing)

text \<open>
  C5. An image whose metadata holds \<open>DateTime\<close> (tag 306, a name of the allow-list) and
  \<open>Make\<close> (tag 271): nothing is embedded in the output, the time stamp is lost with the rest.
\<close>

theorem C5_datetime_dropped:
  "getexif (test_env []) ''dated'' = [(306, ''2025:05:25 10:00:00''), (271, ''Apple'')]
   \<and> map_of (TAGS (test_env [])) 306 = Some ''DateTime''
   \<and> build_exif_bytes (test_env []) ''dated'' = None
   \<and> fs (snd (convert (test_env []) test_world [''d'', ''new.heic''] 90 False)) [''d'', ''new.jpg'']
       = Some (File ''JPEG dated'')"
  by (simp add: test_env_def build_exif_bytes_def dict_get_def TAG_MAP_def KEEP_TAG_NAMES_def
      convert_def with_suffix_def name_def suffix_def exists_def test_world_def with_image_def
      image_open_def emit_def save_def exif_kwarg_def print_def delete_original_def ok_line_def)

section \<open>What one call of a convert function does\<close>

lemma with_image_effects:
  assumes "with_image E w src dst q ex = (r, w1)"
  shows "((\<exists>e. r = Inl e) \<and> fs w1 = fs w \<and> log w1 = log w @ [Opened src])
       \<or> (r = Inr () \<and> is_file w src \<and> (\<exists>c. fs w1 = (fs w)(dst \<mapsto> File c))
            \<and> log w1 = log w @ [Opened src, Saved dst, Stdout (ok_line src dst)])"
  using assms
  by (auto simp: with_image_def image_open_def save_def emit_def print_def is_file_def
      split: option.splits node.splits sum.splits)

lemma delete_original_effects:
  assumes "delete_original E w src del = (r, w1)"
  shows "(r = Inr () \<and> \<not> del \<and> w1 = w)
       \<or> (del \<and> (\<exists>e. r = Inl e) \<and> w1 = w)
       \<or> (del \<and> r = Inr () \<and> is_file w src \<and> fs w1 = (fs w)(src := None)
            \<and> log w1 = log w @ [Unlinked src, Stdout (deleted_line src)])"
  using assms
  by (auto simp: delete_original_def unlink_def emit_def print_def is_file_def
      split: option.splits node.splits sum.splits if_splits)


lemma fresh_effects:
  assumes "(case with_image E w src dst q ex of
              (Inl e, w1) \<Rightarrow> (Inl e, w1)
            | (Inr u, w1) \<Rightarrow> delete_original E w1 src del) = (r, w')"
  shows "((\<exists>e. r = Inl e) \<and> fs w' = fs w \<and> log w' = log w @ [Opened src])
       \<or> (is_file w src \<and> (\<exists>c. fs w' = (fs w)(dst \<mapsto> File c))
            \<and> log w' = log w @ [Opened src, Saved dst, Stdout (ok_line src dst)]
            \<and> (if del then \<exists>e. r = Inl e else r = Inr ()))
       \<or> (del \<and> r = Inr () \<and> is_file w src
            \<and> (\<exists>c. fs w' = (fs w)(dst \<mapsto> File c, src := None))
            \<and> log w' = log w @ [Opened src, Saved dst, Stdout (ok_line src dst),
                                 Unlinked src, Stdout (deleted_line src)])"
proof (cases "with_image E w src dst q ex")
  case (Pair r1 w1)
  note wi = with_image_effects [OF Pair]
  show ?thesis
  proof (cases r1)
    case (Inl e)
    with Pair assms wi show ?thesis by auto
  next
    case (Inr u)
    with Pair assms have d: "delete_original E w1 src del = (r, w')" by simp
    from Inr wi obtain c where
      c: "is_file w src" "fs w1 = (fs w)(dst \<mapsto> File c)"
         "log w1 = log w @ [Opened src, Saved dst, Stdout (ok_line src dst)]"
      by auto
    from delete_original_effects [OF d] c show ?thesis
      by (elim disjE conjE exE) auto
  qed
qed

lemma convert_effects:
  assumes "convert E w src q del = (r, w')" and "with_suffix src ''.jpg'' = Inr dst"
  shows "(exists w dst \<and> r = Inr () \<and> w' = print (skip_line dst) w)
       \<or> (\<not> exists w dst \<and>
           (((\<exists>e. r = Inl e) \<and> fs w' = fs w \<and> log w' = log w @ [Opened src])
          \<or> (is_file w src \<and> (\<exists>c. fs w' = (fs w)(dst \<mapsto> File c))
               \<and> log w' = log w @ [Opened src, Saved dst, Stdout (ok_line src dst)]
               \<and> (if del then \<exists>e. r = Inl e else r = Inr ()))
          \<or> (del \<and> r = Inr () \<and> is_file w src
               \<and> (\<exists>c. fs w' = (fs w)(dst \<mapsto> File c, src := None))
               \<and> log w' = log w @ [Opened src, Saved dst, Stdout (ok_line src dst),
                                    Unlinked src, Stdout (deleted_line src)])))"
proof (cases "exists w dst")
  case True
  with assms show ?thesis by (auto simp: convert_def)
next
  case False
  with assms have "(case with_image E w src dst q (\<lambda>im. exif_kwarg (build_exif_bytes E im)) of
              (Inl e, w1) \<Rightarrow> (Inl e, w1)
            | (Inr u, w1) \<Rightarrow> delete_original E w1 src del) = (r, w')"
    by (simp add: convert_def)
  from fresh_effects [OF this] False show ?thesis by simp
qed


lemma sanitize_convert_effects:
  assumes "sanitize_convert E w src q del = (r, w')" and "with_suffix src ''.jpg'' = Inr dst"
  shows "(exists w dst \<and> r = Inr () \<and> w' = print (skip_line dst) w)
       \<or> (\<not> exists w dst \<and>
           (((\<exists>e. r = Inl e) \<and> fs w' = fs w \<and> log w' = log w @ [Opened src])
          \<or> (is_file w src \<and> (\<exists>c. fs w' = (fs w)(dst \<mapsto> File c))
               \<and> log w' = log w @ [Opened src, Saved dst, Stdout (ok_line src dst)]
               \<and> (if del then \<exists>e. r = Inl e else r = Inr ()))
          \<or> (del \<and> r = Inr () \<and> is_file w src
               \<and> (\<exists>c. fs w' = (fs w)(dst \<mapsto> File c, src := None))
               \<and> log w' = log w @ [Opened src, Saved dst, Stdout (ok_line src dst),
                                    Unlinked src, Stdout (deleted_line src)])))"
proof (cases "exists w dst")
  case True
  with assms show ?thesis by (auto simp: sanitize_convert_def)
next
  case False
  with assms have "(case with_image E w src dst q (\<lambda>im. None) of
              (Inl e, w1) \<Rightarrow> (Inl e, w1)
            | (Inr u, w1) \<Rightarrow> delete_original E w1 src del) = (r, w')"
    by (simp add: sanitize_convert_def)
  from fresh_effects [OF this] False show ?thesis by simp
qed

lemma skip_unlink_effects:
  assumes "unlink E (print s w) src True = (r, w')"
  shows "(fs w' = fs w \<and> log w' = log w @ [Stdout s]
            \<and> ((r = Inr () \<and> fs w src = None) \<or> (\<exists>e. r = Inl e)))
       \<or> (r = Inr () \<and> is_file w src \<and> fs w' = (fs w)(src := None)
            \<and> log w' = log w @ [Stdout s, Unlinked src])"
  using assms
  by (auto simp: unlink_def emit_def print_def is_file_def
      split: option.splits node.splits if_splits)

lemma convert_to_jpg_effects:
  assumes "convert_to_jpg E w src q del = (r, w')" and "with_suffix src ''.jpg'' = Inr dst"
  shows "(exists w dst \<and>
           ((fs w' = fs w \<and> log w' = log w @ [Stdout (skip_line dst)]
               \<and> ((r = Inr () \<and> (\<not> del \<or> fs w src = None)) \<or> (del \<and> (\<exists>e. r = Inl e))))
          \<or> (del \<and> r = Inr () \<and> is_file w src \<and> fs w' = (fs w)(src := None)
               \<and> log w' = log w @ [Stdout (skip_line dst), Unlinked src])))
       \<or> (\<not> exists w dst \<and>
           (((\<exists>e. r = Inl e) \<and> fs w' = fs w \<and> log w' = log w @ [Opened src])
          \<or> (is_file w src \<and> (\<exists>c. fs w' = (fs w)(dst \<mapsto> File c))
               \<and> log w' = log w @ [Opened src, Saved dst, Stdout (ok_line src dst)]
               \<and> (if del then \<exists>e. r = Inl e else r = Inr ()))
          \<or> (del \<and> r = Inr () \<and> is_file w src
               \<and> (\<exists>c. fs w' = (fs w)(dst \<mapsto> File c, src := None))
               \<and> log w' = log w @ [Opened src, Saved dst, Stdout (ok_line src dst),
                                    Unlinked src, Stdout (deleted_line src)])))"
proof (cases "exists w dst")
  case True
  show ?thesis
  proof (cases del)
    case False
    with True assms show ?thesis
      by (auto simp: convert_to_jpg_def print_def emit_def)
  next
    case del: True
    obtain r1 w1 where u: "unlink E (print (skip_line dst) w) src True = (r1, w1)"
      by (cases "unlink E (print (skip_line dst) w) src True")
    with True del assms have "r = r1 \<and> w' = w1"
      by (auto simp: convert_to_jpg_def Let_def split: sum.splits)
    with skip_unlink_effects [OF u] True del show ?thesis by auto
  qed
next
  case False
  with assms have "(case with_image E w src dst q (\<lambda>im. None) of
              (Inl e, w1) \<Rightarrow> (Inl e, w1)
            | (Inr u, w1) \<Rightarrow> delete_original E w1 src del) = (r, w')"
    by (simp add: convert_to_jpg_def)
  from fresh_effects [OF this] False show ?thesis by simp
qed


lemma convert_ok_dst_exists:
  assumes "convert E w src q del = (Inr (), w1)" and "with_suffix src ''.jpg'' = Inr dst"
  shows "exists w1 dst"
  using convert_effects [OF assms]
  by (auto simp: exists_def print_def emit_def is_file_def split: if_splits)

lemma sanitize_convert_ok_dst_exists:
  assumes "sanitize_convert E w src q del = (Inr (), w1)" and "with_suffix src ''.jpg'' = Inr dst"
  shows "exists w1 dst"
  using sanitize_convert_effects [OF assms]
  by (auto simp: exists_def print_def emit_def is_file_def split: if_splits)

lemma convert_to_jpg_ok_dst_exists:
  assumes "convert_to_jpg E w src q del = (Inr (), w1)" and "with_suffix src ''.jpg'' = Inr dst"
    and "src \<noteq> dst \<or> \<not> del"
  shows "exists w1 dst \<and> (del \<longrightarrow> fs w1 src = None)"
  using convert_to_jpg_effects [OF assms(1,2)] assms(3)
  by (auto simp: exists_def print_def emit_def is_file_def split: if_splits)

lemma convert_to_jpg_skip_only_source:
  assumes "with_suffix src ''.jpg'' = Inr dst" and "exists w dst"
    and "convert_to_jpg E w src q del = (r, w')"
  shows "(log w' = log w @ [Stdout (skip_line dst)]
          \<or> log w' = log w @ [Stdout (skip_line dst), Unlinked src])
       \<and> (\<forall>p. p \<noteq> src \<longrightarrow> fs w' p = fs w p)
       \<and> (\<not> del \<longrightarrow> r = Inr () \<and> fs w' = fs w)"
  using convert_to_jpg_effects [OF assms(3,1)] assms(2) by auto

text \<open>
  The two convert-only scripts unlink a source only after its JPEG was saved, and not at all
  when opening, transposing or saving raises.
\<close>

lemma convert_unlinks_after_save:
  assumes "with_suffix src ''.jpg'' = Inr dst"
    and "convert E w src q del = (r, w') \<or> sanitize_convert E w src q del = (r, w')"
    and "fs w src \<noteq> None" and "fs w' src = None"
  shows "del \<and> is_file w' dst
       \<and> log w' = log w @ [Opened src, Saved dst, Stdout (ok_line src dst),
                           Unlinked src, Stdout (deleted_line src)]"
proof -
  from assms(2) show ?thesis
  proof
    assume c: "convert E w src q del = (r, w')"
    from convert_effects [OF c assms(1)] assms(3,4) show ?thesis
      by (auto simp: print_def emit_def is_file_def exists_def split: if_splits)
  next
    assume c: "sanitize_convert E w src q del = (r, w')"
    from sanitize_convert_effects [OF c assms(1)] assms(3,4) show ?thesis
      by (auto simp: print_def emit_def is_file_def exists_def split: if_splits)
  qed
qed

lemma convert_raises_keeps_source:
  assumes "with_suffix src ''.jpg'' = Inr dst" and "\<not> exists w dst"
    and "with_image E w src dst q (\<lambda>im. None) = (Inl e, w1)"
  shows "sanitize_convert E w src q del = (Inl e, w1)
       \<and> convert_to_jpg E w src q del = (Inl e, w1)
       \<and> fs w1 = fs w \<and> log w1 = log w @ [Opened src]"
  using assms with_image_effects [of E w src dst q "\<lambda>im. None" "Inl e" w1]
  by (simp add: sanitize_convert_def convert_to_jpg_def)

text \<open>
  C4. heic\_strip\_and\_convert\_to\_jpg.py with deletion on (no \<open>--keep\<close>), on an image
  \<open>shot.heic\<close> beside a directory named \<open>shot.jpg\<close>: \<open>dst.exists()\<close> holds of the directory, the
  skip path is taken and the source is unlinked. No JPEG of this source was ever written: the
  log has no output saved, and after the run the image is gone and \<open>shot.jpg\<close> is still the
  directory.
\<close>

theorem C4_unlink_without_output:
  "with_suffix [''d'', ''shot.heic''] ''.jpg'' = Inr [''d'', ''shot.jpg'']
   \<and> fs test_world_dir [''d'', ''shot.heic''] = Some (File ''img'')
   \<and> fs test_world_dir [''d'', ''shot.jpg''] = Some Dir
   \<and> fst (convert_to_jpg (test_env []) test_world_dir [''d'', ''shot.heic''] 90 True) = Inr ()
   \<and> log (snd (convert_to_jpg (test_env []) test_world_dir [''d'', ''shot.heic''] 90 True))
       = [Stdout ''[SKIP] shot.jpg already exists'', Unlinked [''d'', ''shot.heic'']]
   \<and> fst (strip_convert_main (test_env [[''d'', ''shot.heic'']]) test_args test_world_dir)
       = Finished
   \<and> log (snd (strip_convert_main (test_env [[''d'', ''shot.heic'']]) test_args test_world_dir))
       = [Yield [''d'', ''shot.heic''],
          Exec [''exiftool'', ''-overwrite_original'', ''-all='', ''d/shot.heic''],
          Stdout ''[SKIP] shot.jpg already exists'', Unlinked [''d'', ''shot.heic''],
          Stdout ''Done. Processed 1 file.'']
   \<and> fs (snd (strip_convert_main (test_env [[''d'', ''shot.heic'']]) test_args test_world_dir))
        [''d'', ''shot.heic''] = None
   \<and> fs (snd (strip_convert_main (test_env [[''d'', ''shot.heic'']]) test_args test_world_dir))
        [''d'', ''shot.jpg''] = Some Dir"
  by code_simp

text \<open>
  C6. heic\_strip\_and\_convert\_to\_jpg.py with \<open>--ext jpg\<close> and deletion on, on a file
  \<open>old.jpg\<close>: source and destination are one path, so the destination exists and the skip
  path is taken; it prints \<open>[SKIP]\<close> and unlinks the source, which is the existing destination.
  The JPEG that the skip was to protect is gone, and converting the same source again raises
  instead of printing \<open>[SKIP]\<close>.
\<close>

theorem C6_skip_deletes_destination:
  "with_suffix [''d'', ''old.jpg''] ''.jpg'' = Inr [''d'', ''old.jpg'']
   \<and> fs test_world [''d'', ''old.jpg''] = Some (File ''earlier output'')
   \<and> fst (convert_to_jpg (test_env []) test_world [''d'', ''old.jpg''] 90 True) = Inr ()
   \<and> log (snd (convert_to_jpg (test_env []) test_world [''d'', ''old.jpg''] 90 True))
       = [Stdout ''[SKIP] old.jpg already exists'', Unlinked [''d'', ''old.jpg'']]
   \<and> fs (snd (convert_to_jpg (test_env []) test_world [''d'', ''old.jpg''] 90 True))
        [''d'', ''old.jpg''] = None
   \<and> fst (convert_to_jpg (test_env [])
            (snd (convert_to_jpg (test_env []) test_world [''d'', ''old.jpg''] 90 True))
            [''d'', ''old.jpg''] 90 True)
       = Inl ''[Errno 2] No such file or directory''
   \<and> log (snd (strip_convert_main (test_env [[''d'', ''old.jpg'']]) (test_args\<lparr>ext := ''jpg''\<rparr>)
                 test_world))
       = [Yield [''d'', ''old.jpg''],
          Exec [''exiftool'', ''-overwrite_original'', ''-all='', ''d/old.jpg''],
          Stdout ''[SKIP] old.jpg already exists'', Unlinked [''d'', ''old.jpg''],
          Stdout ''Done. Processed 1 file.'']
   \<and> fs (snd (strip_convert_main (test_env [[''d'', ''old.jpg'']]) (test_args\<lparr>ext := ''jpg''\<rparr>)
                test_world)) [''d'', ''old.jpg''] = None"
  by code_simp

text \<open>
  C9, as amended. In heic\_strip\_and\_convert\_to\_jpg.py the first effect of the \<open>try\<close> body on
  any file is the ExifTool call on the source, before the destination is looked at. For a
  regular file whose destination exists and on which ExifTool succeeds: with \<open>--keep\<close> the
  source holds the stripped contents and the \<open>[SKIP]\<close> line is printed; without \<open>--keep\<close> the
  stripped source is then unlinked, when the unlink does not raise, though nothing was
  converted.
\<close>

theorem C9_strip_before_skip:
  "(\<exists>evs. log (snd (strip_then_convert E w src (quality a) (\<not> keep a)))
            = log w @ Exec [''exiftool'', ''-overwrite_original'', ''-all='', path_str src] # evs)
   \<and> (fs w src = Some (File c) \<and> with_suffix src ''.jpg'' = Inr dst \<and> exists w dst
        \<and> run_exiftool E [''exiftool'', ''-overwrite_original'', ''-all='', path_str src] c
            = Completed c' \<longrightarrow>
        (keep a \<longrightarrow>
           strip_then_convert E w src (quality a) (\<not> keep a)
           = (Inr (), w\<lparr>fs := (fs w)(src \<mapsto> File c'),
                        log := log w @ [Exec [''exiftool'', ''-overwrite_original'', ''-all='',
                                              path_str src],
                                        Stdout (skip_line dst)]\<rparr>))
      \<and> (\<not> keep a \<and> unlink_denied E src = None \<longrightarrow>
           strip_then_convert E w src (quality a) (\<not> keep a)
           = (Inr (), w\<lparr>fs := (fs w)(src := None),
                        log := log w @ [Exec [''exiftool'', ''-overwrite_original'', ''-all='',
                                              path_str src],
                                        Stdout (skip_line dst), Unlinked src]\<rparr>)))"
proof (intro conjI impI)
  show "\<exists>evs. log (snd (strip_then_convert E w src (quality a) (\<not> keep a)))
            = log w @ Exec [''exiftool'', ''-overwrite_original'', ''-all='', path_str src] # evs"
  proof (cases "strip_all_metadata E w src")
    case (Pair r1 w1)
    then have l1: "log w1 = log w @ [Exec [''exiftool'', ''-overwrite_original'', ''-all='', path_str src]]"
      by (auto simp: strip_all_metadata_def run_tool_def Let_def emit_def
          split: option.splits node.splits proc.splits)
    show ?thesis
    proof (cases r1)
      case (Inl x)
      with Pair l1 show ?thesis by (simp add: strip_then_convert_def)
    next
      case (Inr u)
      obtain r2 w2 where c: "convert_to_jpg E w1 src (quality a) (\<not> keep a) = (r2, w2)"
        by (cases "convert_to_jpg E w1 src (quality a) (\<not> keep a)")
      have "\<exists>evs. log w2 = log w1 @ evs"
      proof (cases "with_suffix src ''.jpg''")
        case (Inl x)
        with c show ?thesis by (simp add: convert_to_jpg_def)
      next
        case (Inr dst')
        from convert_to_jpg_effects [OF c Inr] show ?thesis by auto
      qed
      with Pair Inr c l1 show ?thesis
        by (auto simp: strip_then_convert_def split: sum.splits)
    qed
  qed
next
  assume h: "fs w src = Some (File c) \<and> with_suffix src ''.jpg'' = Inr dst \<and> exists w dst
        \<and> run_exiftool E [''exiftool'', ''-overwrite_original'', ''-all='', path_str src] c
            = Completed c'"
  assume "keep a"
  with h show "strip_then_convert E w src (quality a) (\<not> keep a)
           = (Inr (), w\<lparr>fs := (fs w)(src \<mapsto> File c'),
                        log := log w @ [Exec [''exiftool'', ''-overwrite_original'', ''-all='',
                                              path_str src],
                                        Stdout (skip_line dst)]\<rparr>)"
    by (auto simp: strip_then_convert_def strip_all_metadata_def run_tool_def Let_def emit_def
        convert_to_jpg_def exists_def print_def)
next
  assume h: "fs w src = Some (File c) \<and> with_suffix src ''.jpg'' = Inr dst \<and> exists w dst
        \<and> run_exiftool E [''exiftool'', ''-overwrite_original'', ''-all='', path_str src] c
            = Completed c'"
  assume "\<not> keep a \<and> unlink_denied E src = None"
  with h show "strip_then_convert E w src (quality a) (\<not> keep a)
           = (Inr (), w\<lparr>fs := (fs w)(src := None),
                        log := log w @ [Exec [''exiftool'', ''-overwrite_original'', ''-all='',
                                              path_str src],
                                        Stdout (skip_line dst), Unlinked src]\<rparr>)"
    by (auto simp: strip_then_convert_def strip_all_metadata_def run_tool_def Let_def emit_def
        convert_to_jpg_def exists_def print_def unlink_def)
qed


theorem C9_strip_before_skip_witness:
  "fs test_world [''d'', ''old.heic''] = Some (File ''img'')
   \<and> with_suffix [''d'', ''old.heic''] ''.jpg'' = Inr [''d'', ''old.jpg'']
   \<and> exists test_world [''d'', ''old.jpg'']
   \<and> run_exiftool (test_env [])
        [''exiftool'', ''-overwrite_original'', ''-all='', path_str [''d'', ''old.heic'']] ''img''
       = Completed ''stripped img''
   \<and> \<not> keep test_args \<and> unlink_denied (test_env []) [''d'', ''old.heic''] = None
   \<and> strip_then_convert (test_env []) test_world [''d'', ''old.heic''] (quality test_args)
        (\<not> keep test_args)
       = (Inr (), test_world\<lparr>fs := (fs test_world)([''d'', ''old.heic''] := None),
            log := log test_world
              @ [Exec [''exiftool'', ''-overwrite_original'', ''-all='', ''d/old.heic''],
                 Stdout ''[SKIP] old.jpg already exists'', Unlinked [''d'', ''old.heic'']]\<rparr>)"
proof -
  have f: "fs test_world [''d'', ''old.heic''] = Some (File ''img'')"
    by (simp add: test_world_def)
  have s: "with_suffix [''d'', ''old.heic''] ''.jpg'' = Inr [''d'', ''old.jpg'']"
    by (simp add: with_suffix_def name_def suffix_def)
  have e: "exists test_world [''d'', ''old.jpg'']"
    by (simp add: exists_def test_world_def)
  have t: "run_exiftool (test_env [])
        [''exiftool'', ''-overwrite_original'', ''-all='', path_str [''d'', ''old.heic'']] ''img''
       = Completed ''stripped img''"
    by (simp add: test_env_def)
  have k: "\<not> keep test_args \<and> unlink_denied (test_env []) [''d'', ''old.heic''] = None"
    by (simp add: test_args_def test_env_def name_def)
  have texts: "path_str [''d'', ''old.heic''] = ''d/old.heic''"
    "skip_line [''d'', ''old.jpg''] = ''[SKIP] old.jpg already exists''"
    by (simp_all add: path_str_def skip_line_def name_def)
  have "strip_then_convert (test_env []) test_world [''d'', ''old.heic''] (quality test_args)
        (\<not> keep test_args)
       = (Inr (), test_world\<lparr>fs := (fs test_world)([''d'', ''old.heic''] := None),
            log := log test_world
              @ [Exec [''exiftool'', ''-overwrite_original'', ''-all='',
                       path_str [''d'', ''old.heic'']],
                 Stdout (skip_line [''d'', ''old.jpg'']), Unlinked [''d'', ''old.heic'']]\<rparr>)"
    using f s e t k
      C9_strip_before_skip [where E = "test_env []" and w = test_world
        and src = "[''d'', ''old.heic'']" and dst = "[''d'', ''old.jpg'']" and a = test_args
        and c = "''img''" and c' = "''stripped img''"]
    by blast
  then have r: "strip_then_convert (test_env []) test_world [''d'', ''old.heic''] (quality test_args)
        (\<not> keep test_args)
       = (Inr (), test_world\<lparr>fs := (fs test_world)([''d'', ''old.heic''] := None),
            log := log test_world
              @ [Exec [''exiftool'', ''-overwrite_original'', ''-all='', ''d/old.heic''],
                 Stdout ''[SKIP] old.jpg already exists'', Unlinked [''d'', ''old.heic'']]\<rparr>)"
    by (simp only: texts)
  from f s e t k r show ?thesis
    by (intro conjI) (erule conjunct1 conjunct2 | assumption)+
qed

text \<open>
  C9, the claim as stated fails on a file whose destination exists and on which ExifTool
  exits non-zero: the source is not stripped, no \<open>[SKIP]\<close> line is printed and nothing is
  unlinked. It fails as well on a file that the system does not let go: the file is stripped
  and reported \<open>[SKIP]\<close>, the unlink raises, and the source stays.
\<close>

theorem C9_counterexample:
  "fs test_world_tool [''d'', ''ro.heic''] = Some (File ''readonly'')
   \<and> fs test_world_tool [''d'', ''ro.jpg''] = Some (File ''earlier output'')
   \<and> log (snd (strip_convert_main (test_env [[''d'', ''ro.heic'']]) test_args test_world_tool))
       = [Yield [''d'', ''ro.heic''],
          Exec [''exiftool'', ''-overwrite_original'', ''-all='', ''d/ro.heic''],
          Stderr (''[ERROR] ro.heic: ExifTool '' @ [CHR 0xE2, CHR 0x86, CHR 0x92]
                    @ '' Error: not writable''),
          Stdout (''No matching files processed '' @ [CHR 0xE2, CHR 0x80, CHR 0x94]
                    @ '' check [ERROR] messages above.'')]
   \<and> fs (snd (strip_convert_main (test_env [[''d'', ''ro.heic'']]) test_args test_world_tool))
        [''d'', ''ro.heic''] = Some (File ''readonly'')
   \<and> fs test_world_tool [''d'', ''pinned.jpg''] = Some (File ''earlier output'')
   \<and> log (snd (strip_convert_main (test_env [[''d'', ''pinned.heic'']]) test_args
                 test_world_tool))
       = [Yield [''d'', ''pinned.heic''],
          Exec [''exiftool'', ''-overwrite_original'', ''-all='', ''d/pinned.heic''],
          Stdout ''[SKIP] pinned.jpg already exists'',
          Stderr ''[ERROR] pinned.heic: [Errno 13] Permission denied'',
          Stdout (''No matching files processed '' @ [CHR 0xE2, CHR 0x80, CHR 0x94]
                    @ '' check [ERROR] messages above.'')]
   \<and> fs (snd (strip_convert_main (test_env [[''d'', ''pinned.heic'']]) test_args
                test_world_tool)) [''d'', ''pinned.heic'']
       = Some (File ''stripped img'')"
  by code_simp

section \<open>The loops and the summary\<close>

lemma yields_simps [simp]:
  "yields [] = 0" "yields (evs @ evs') = yields evs + yields evs'"
  "yields (Yield p # evs) = Suc (yields evs)" "yields (Stdout s # evs) = yields evs"
  "yields (Stderr s # evs) = yields evs" "yields (Exec argv # evs) = yields evs"
  "yields (Opened p # evs) = yields evs" "yields (Saved p # evs) = yields evs"
  "yields (Unlinked p # evs) = yields evs"
  by (simp_all add: yields_def)

lemma errors_simps [simp]:
  "errors [] = 0" "errors (evs @ evs') = errors evs + errors evs'"
  "errors (Yield p # evs) = errors evs" "errors (Stdout s # evs) = errors evs"
  "errors (Stderr s # evs) = Suc (errors evs)" "errors (Exec argv # evs) = errors evs"
  "errors (Opened p # evs) = errors evs" "errors (Saved p # evs) = errors evs"
  "errors (Unlinked p # evs) = errors evs"
  by (simp_all add: errors_def)

lemma file_lines_simps [simp]:
  "file_lines []" "file_lines (evs @ evs') = (file_lines evs \<and> file_lines evs')"
  "file_lines (Yield p # evs) = file_lines evs"
  "file_lines (Stdout s # evs) = (file_line s \<and> file_lines evs)"
  "file_lines (Stderr s # evs) = file_lines evs" "file_lines (Exec argv # evs) = file_lines evs"
  "file_lines (Opened p # evs) = file_lines evs" "file_lines (Saved p # evs) = file_lines evs"
  "file_lines (Unlinked p # evs) = file_lines evs"
  by (simp_all add: file_lines_def)

lemma file_line_simps [simp]:
  "file_line (skip_line d)" "file_line (ok_line s d)" "file_line (deleted_line s)"
  by (simp_all add: file_line_def skip_line_def ok_line_def deleted_line_def)

lemma convert_quiet:
  assumes "convert E w src q del = (r, w')"
  shows "\<exists>evs. log w' = log w @ evs \<and> yields evs = 0 \<and> errors evs = 0 \<and> file_lines evs"
proof (cases "with_suffix src ''.jpg''")
  case (Inl e)
  with assms show ?thesis by (simp add: convert_def)
next
  case (Inr dst)
  from convert_effects [OF assms Inr] show ?thesis
    by (elim disjE conjE exE) (simp_all add: print_def emit_def)
qed

lemma sanitize_convert_quiet:
  assumes "sanitize_convert E w src q del = (r, w')"
  shows "\<exists>evs. log w' = log w @ evs \<and> yields evs = 0 \<and> errors evs = 0 \<and> file_lines evs"
proof (cases "with_suffix src ''.jpg''")
  case (Inl e)
  with assms show ?thesis by (simp add: sanitize_convert_def)
next
  case (Inr dst)
  from sanitize_convert_effects [OF assms Inr] show ?thesis
    by (elim disjE conjE exE) (simp_all add: print_def emit_def)
qed

lemma convert_to_jpg_quiet:
  assumes "convert_to_jpg E w src q del = (r, w')"
  shows "\<exists>evs. log w' = log w @ evs \<and> yields evs = 0 \<and> errors evs = 0 \<and> file_lines evs"
proof (cases "with_suffix src ''.jpg''")
  case (Inl e)
  with assms show ?thesis by (simp add: convert_to_jpg_def)
next
  case (Inr dst)
  from convert_to_jpg_effects [OF assms Inr] show ?thesis
    by (elim disjE conjE exE) (simp_all add: print_def emit_def)
qed

lemma convert_files_count:
  assumes quiet: "\<And>w p r w'. conv w p = (r, w') \<Longrightarrow>
      \<exists>evs. log w' = log w @ evs \<and> yields evs = 0 \<and> errors evs = 0 \<and> file_lines evs"
  shows "convert_files E conv exts es tot w = (n, w') \<Longrightarrow>
      \<exists>evs. log w' = log w @ evs \<and> n + errors evs = tot + yields evs \<and> file_lines evs"
proof (induction es arbitrary: tot w)
  case Nil
  then show ?case by simp
next
  case (Cons src rest)
  show ?case
  proof (cases "discovered E w exts src")
    case False
    with Cons.prems have "convert_files E conv exts rest tot w = (n, w')" by simp
    from Cons.IH [OF this] show ?thesis .
  next
    case True
    obtain r w1 where c: "conv (emit (Yield src) w) src = (r, w1)"
      by (cases "conv (emit (Yield src) w) src")
    from quiet [OF c] obtain evs1 where
      e1: "log w1 = log w @ Yield src # evs1" "yields evs1 = 0" "errors evs1 = 0" "file_lines evs1"
      by (auto simp: emit_def)
    show ?thesis
    proof (cases r)
      case (Inr u)
      with True c Cons.prems have "convert_files E conv exts rest (tot + 1) w1 = (n, w')"
        by simp
      from Cons.IH [OF this] obtain evs where
        "log w' = log w1 @ evs" "n + errors evs = tot + 1 + yields evs" "file_lines evs"
        by auto
      with e1 show ?thesis
        by (intro exI [of _ "Yield src # evs1 @ evs"]) simp
    next
      case (Inl exc)
      with True c Cons.prems
      have "convert_files E conv exts rest tot
              (eprint (''[ERROR] '' @ name src @ '': '' @ exc) w1) = (n, w')"
        by simp
      from Cons.IH [OF this] obtain evs where
        "log w' = log w1 @ Stderr (''[ERROR] '' @ name src @ '': '' @ exc) # evs"
        "n + errors evs = tot + yields evs" "file_lines evs"
        by (auto simp: eprint_def emit_def)
      with e1 show ?thesis
        by (intro exI [of _ "Yield src # evs1 @ Stderr (''[ERROR] '' @ name src @ '': '' @ exc) # evs"])
           simp
    qed
  qed
qed


lemma run_tool_log:
  "run_tool E w argv file = (r, w') \<Longrightarrow> log w' = log w @ [Exec argv]"
  by (auto simp: run_tool_def Let_def emit_def split: option.splits node.splits proc.splits)

lemma strip_then_convert_quiet:
  assumes "strip_then_convert E w src q del = (r, w')"
  shows "\<exists>evs. log w' = log w @ evs \<and> yields evs = 0 \<and> errors evs = 0 \<and> file_lines evs"
proof (cases "strip_all_metadata E w src")
  case (Pair r1 w1)
  then have l1: "log w1 = log w @ [Exec [''exiftool'', ''-overwrite_original'', ''-all='', path_str src]]"
    by (simp add: strip_all_metadata_def run_tool_log)
  show ?thesis
  proof (cases r1)
    case (Inl exc)
    with Pair assms l1 show ?thesis by (auto simp: strip_then_convert_def)
  next
    case (Inr u)
    obtain r2 w2 where c: "convert_to_jpg E w1 src q del = (r2, w2)"
      by (cases "convert_to_jpg E w1 src q del")
    from convert_to_jpg_quiet [OF c] obtain evs where
      "log w2 = log w1 @ evs" "yields evs = 0" "errors evs = 0" "file_lines evs"
      by auto
    moreover from Pair Inr c assms have "w' = w2"
      by (auto simp: strip_then_convert_def split: sum.splits)
    ultimately show ?thesis using l1
      by (intro exI [of _ "Exec [''exiftool'', ''-overwrite_original'', ''-all='', path_str src] # evs"])
         simp
  qed
qed

lemma report_log:
  "report heic exc w = (Inr u, w') \<Longrightarrow> \<exists>s. log w' = log w @ [Stderr s]"
  by (auto simp: report_def eprint_def emit_def split: exn.splits sum.splits)

lemma strip_convert_files_count:
  "strip_convert_files E q del exts es tot w = (Inr n, w') \<Longrightarrow>
      \<exists>evs. log w' = log w @ evs \<and> n + errors evs = tot + yields evs \<and> file_lines evs"
proof (induction es arbitrary: tot w)
  case Nil
  then show ?case by simp
next
  case (Cons heic rest)
  show ?case
  proof (cases "discovered E w exts heic")
    case False
    with Cons.prems have "strip_convert_files E q del exts rest tot w = (Inr n, w')" by simp
    from Cons.IH [OF this] show ?thesis .
  next
    case True
    obtain r w1 where c: "strip_then_convert E (emit (Yield heic) w) heic q del = (r, w1)"
      by (cases "strip_then_convert E (emit (Yield heic) w) heic q del")
    from strip_then_convert_quiet [OF c] obtain evs1 where
      e1: "log w1 = log w @ Yield heic # evs1" "yields evs1 = 0" "errors evs1 = 0" "file_lines evs1"
      by (auto simp: emit_def)
    show ?thesis
    proof (cases r)
      case (Inr u)
      with True c Cons.prems have "strip_convert_files E q del exts rest (tot + 1) w1 = (Inr n, w')"
        by simp
      from Cons.IH [OF this] obtain evs where
        "log w' = log w1 @ evs" "n + errors evs = tot + 1 + yields evs" "file_lines evs"
        by auto
      with e1 show ?thesis
        by (intro exI [of _ "Yield heic # evs1 @ evs"]) simp
    next
      case (Inl exc)
      obtain r2 w2 where rp: "report heic exc w1 = (r2, w2)"
        by (cases "report heic exc w1")
      with True c Inl Cons.prems obtain u where
        r2: "r2 = Inr u" and rest: "strip_convert_files E q del exts rest tot w2 = (Inr n, w')"
        by (cases r2) auto
      from report_log rp r2 obtain s where s: "log w2 = log w1 @ [Stderr s]" by blast
      from Cons.IH [OF rest] obtain evs where
        "log w' = log w2 @ evs" "n + errors evs = tot + yields evs" "file_lines evs"
        by auto
      with e1 s show ?thesis
        by (intro exI [of _ "Yield heic # evs1 @ Stderr s # evs"]) simp
    qed
  qed
qed

lemma strip_files_count:
  "strip_files E root kd files cnt w = (Inr n, w') \<Longrightarrow>
      \<exists>evs. log w' = log w @ evs \<and> n + errors evs = cnt + length files
            \<and> yields evs = 0 \<and> file_lines evs"
proof (induction files arbitrary: cnt w)
  case Nil
  then show ?case by simp
next
  case (Cons f rest)
  obtain r w1 where c: "strip_metadata E w f kd = (r, w1)"
    by (cases "strip_metadata E w f kd")
  then obtain argv where l1: "log w1 = log w @ [Exec argv]"
    by (auto simp: strip_metadata_def run_tool_log split: if_splits)
  show ?case
  proof (cases r)
    case (Inr u)
    with c Cons.prems obtain rel where
      rest: "strip_files E root kd rest (cnt + 1)
               (print (''[OK] Stripped metadata from '' @ path_str rel) w1) = (Inr n, w')"
      by (auto split: sum.splits)
    from Cons.IH [OF rest] obtain evs where
      "log w' = log w1 @ Stdout (''[OK] Stripped metadata from '' @ path_str rel) # evs"
      "n + errors evs = cnt + 1 + length rest" "yields evs = 0" "file_lines evs"
      by (auto simp: print_def emit_def)
    with l1 show ?thesis
      by (intro exI [of _ "Exec argv # Stdout (''[OK] Stripped metadata from '' @ path_str rel) # evs"])
         (simp add: file_line_def)
  next
    case (Inl exc)
    with c Cons.prems obtain err where
      exc: "exc = CalledProcessError err" and
      rest: "strip_files E root kd rest cnt
               (eprint (''[ERROR] '' @ path_str f @ '': '' @ strip (decode_ignore err)) w1) = (Inr n, w')"
      by (cases exc) auto
    from Cons.IH [OF rest] obtain evs where
      "log w' = log w1 @ Stderr (''[ERROR] '' @ path_str f @ '': '' @ strip (decode_ignore err)) # evs"
      "n + errors evs = cnt + length rest" "yields evs = 0" "file_lines evs"
      by (auto simp: eprint_def emit_def)
    with l1 show ?thesis
      by (intro exI [of _ "Exec argv # Stderr (''[ERROR] '' @ path_str f @ '': '' @ strip (decode_ignore err)) # evs"])
         simp
  qed
qed

lemma fold_yield_log:
  "log (fold (\<lambda>f. emit (Yield f)) files w) = log w @ map Yield files"
  by (induction files arbitrary: w) (simp_all add: emit_def)

lemma yields_map_Yield [simp]: "yields (map Yield files) = length files"
  by (induction files) simp_all

lemma errors_map_Yield [simp]: "errors (map Yield files) = 0"
  by (induction files) simp_all

lemma file_lines_map_Yield [simp]: "file_lines (map Yield files)"
  by (induction files) simp_all


lemma convert_main_summary:
  assumes quiet: "\<And>w p r w'. conv w p = (r, w') \<Longrightarrow>
      \<exists>evs. log w' = log w @ evs \<and> yields evs = 0 \<and> errors evs = 0 \<and> file_lines evs"
    and fin: "convert_main conv E a w = (Finished, w')"
  shows "\<exists>n evs. log w' = log w @ evs @ [Stdout (converted_summary n)] \<and> file_lines evs
      \<and> n + errors evs = yields evs"
proof -
  obtain n w1 where l: "convert_files E conv (parse_exts E (ext a))
      (fst (entries E w (directory a) (recursive a))) 0 w = (n, w1)"
    by (cases "convert_files E conv (parse_exts E (ext a)) (fst (entries E w (directory a) (recursive a))) 0 w")
  with fin have w': "w' = print (converted_summary n) w1"
    by (simp add: convert_main_def split: if_splits prod.splits option.splits)
  have "\<exists>evs. log w1 = log w @ evs \<and> n + errors evs = 0 + yields evs \<and> file_lines evs"
    by (rule convert_files_count [where conv = conv, OF _ l]) (rule quiet)
  then obtain evs where
    "log w1 = log w @ evs" "n + errors evs = yields evs" "file_lines evs"
    by auto
  with w' show ?thesis
    by (intro exI [of _ n] exI [of _ evs]) (simp add: print_def emit_def)
qed

lemma strip_main_summary:
  assumes fin: "strip_main E a w = (Finished, w')"
  shows "\<exists>n evs. file_lines evs \<and> n + errors evs = yields evs
      \<and> log w' = log w @ evs
          @ [Stdout (if yields evs = 0
                     then no_files_message (parse_exts E (ext a)) (directory a) (recursive a)
                     else ''Done. Processed '' @ str_nat n @ '' file'' @ plural n @ ''.'')]"
proof -
  define files where
    "files = filter (discovered E w (parse_exts E (ext a))) (fst (entries E w (directory a) (recursive a)))"
  define w0 where "w0 = fold (\<lambda>f. emit (Yield f)) files w"
  have l0: "log w0 = log w @ map Yield files"
    by (simp add: w0_def fold_yield_log)
  show ?thesis
  proof (cases "files = []")
    case True
    with fin have "w' = print (no_files_message (parse_exts E (ext a)) (directory a) (recursive a)) w"
      by (simp add: strip_main_def Let_def files_def split: if_splits)
    then show ?thesis
      by (intro exI [of _ 0] exI [of _ "[]"]) (simp add: print_def emit_def)
  next
    case False
    obtain r w1 where l: "strip_files E (directory a) (keep_datetimes a) files 0 w0 = (r, w1)"
      by (cases "strip_files E (directory a) (keep_datetimes a) files 0 w0")
    with fin False obtain n where r: "r = Inr n" and
      w': "w' = print (''Done. Processed '' @ str_nat n @ '' file'' @ plural n @ ''.'') w1"
      by (cases r) (auto simp: strip_main_def Let_def files_def w0_def split: if_splits)
    from strip_files_count l r obtain evs where
      "log w1 = log w0 @ evs" "n + errors evs = length files" "yields evs = 0" "file_lines evs"
      by fastforce
    with w' l0 False show ?thesis
      by (intro exI [of _ n] exI [of _ "map Yield files @ evs"]) (simp add: print_def emit_def)
  qed
qed

lemma strip_convert_main_summary:
  assumes fin: "strip_convert_main E a w = (Finished, w')"
  shows "\<exists>n evs. log w' = log w @ evs @ [Stdout (processed_summary n)] \<and> file_lines evs
      \<and> n + errors evs = yields evs"
proof -
  obtain r w1 where l: "strip_convert_files E (quality a) (\<not> keep a) (parse_exts E (ext a))
      (fst (entries E w (directory a) (recursive a))) 0 w = (r, w1)"
    by (cases "strip_convert_files E (quality a) (\<not> keep a) (parse_exts E (ext a))
      (fst (entries E w (directory a) (recursive a))) 0 w")
  with fin obtain n where r: "r = Inr n" and w': "w' = print (processed_summary n) w1"
    by (cases r) (auto simp: strip_convert_main_def split: if_splits prod.splits option.splits)
  from strip_convert_files_count l r obtain evs where
    "log w1 = log w @ evs" "n + errors evs = yields evs" "file_lines evs"
    by fastforce
  with w' show ?thesis
    by (intro exI [of _ n] exI [of _ evs]) (simp add: print_def emit_def)
qed

lemma summaries_not_file_lines:
  "\<not> file_line (converted_summary n)" "\<not> file_line (processed_summary n)"
  "\<not> file_line (no_files_message exts root rec)"
  "\<not> file_line (''Done. Processed '' @ str_nat n @ '' file'' @ plural n @ ''.'')"
  by (simp_all add: file_line_def converted_summary_def processed_summary_def no_files_message_def)

text \<open>
  C2, as amended. A run that gets past validation and through its loop ends with one summary
  line, the last line of the log; the lines before it are per-file lines, which no summary
  is. The number \<open>n\<close> in it is the number of files discovered minus the number of
  \<open>[ERROR]\<close> lines. The three convert scripts have two shapes: the "No matching files" line
  for \<open>n = 0\<close> (whether no file was found or every file failed) and "Done. ... n file(s)."
  otherwise, singular for \<open>n = 1\<close>. strip\_heic\_metadata.py prints "No files with extensions
  ..." when no file was found and "Done. Processed n file(s)." otherwise, also for \<open>n = 0\<close>,
  where it reads "0 files".
\<close>

theorem C2_summary_shapes:
  "(heic_to_jpg_main E a w = (Finished, w') \<longrightarrow>
      (\<exists>n evs. log w' = log w @ evs @ [Stdout (converted_summary n)] \<and> file_lines evs
         \<and> n + errors evs = yields evs))
   \<and> (sanitize_main E a w = (Finished, w') \<longrightarrow>
      (\<exists>n evs. log w' = log w @ evs @ [Stdout (converted_summary n)] \<and> file_lines evs
         \<and> n + errors evs = yields evs))
   \<and> (strip_convert_main E a w = (Finished, w') \<longrightarrow>
      (\<exists>n evs. log w' = log w @ evs @ [Stdout (processed_summary n)] \<and> file_lines evs
         \<and> n + errors evs = yields evs))
   \<and> (strip_main E a w = (Finished, w') \<longrightarrow>
      (\<exists>n evs. file_lines evs \<and> n + errors evs = yields evs
         \<and> log w' = log w @ evs
             @ [Stdout (if yields evs = 0
                        then no_files_message (parse_exts E (ext a)) (directory a) (recursive a)
                        else ''Done. Processed '' @ str_nat n @ '' file'' @ plural n @ ''.'')]))
   \<and> \<not> file_line (converted_summary k) \<and> \<not> file_line (processed_summary k)
   \<and> \<not> file_line (no_files_message exts root rec)
   \<and> \<not> file_line (''Done. Processed '' @ str_nat k @ '' file'' @ plural k @ ''.'')
   \<and> converted_summary 0 = ''No matching files converted (review [ERROR] lines).''
   \<and> converted_summary 1 = ''Done. Converted 1 file.''
   \<and> (2 \<le> k \<longrightarrow> converted_summary k = ''Done. Converted '' @ str_nat k @ '' files.'')
   \<and> processed_summary 1 = ''Done. Processed 1 file.''
   \<and> (2 \<le> k \<longrightarrow> processed_summary k = ''Done. Processed '' @ str_nat k @ '' files.'')
   \<and> ''Done. Processed '' @ str_nat 0 @ '' file'' @ plural 0 @ ''.'' = ''Done. Processed 0 files.''"
proof -
  have p1: "heic_to_jpg_main E a w = (Finished, w') \<longrightarrow>
      (\<exists>n evs. log w' = log w @ evs @ [Stdout (converted_summary n)] \<and> file_lines evs
         \<and> n + errors evs = yields evs)"
    unfolding heic_to_jpg_main_def
    by (intro impI convert_main_summary [where conv = "\<lambda>w src. convert E w src (quality a) (delete a)"])
       (rule convert_quiet, assumption+)
  have p2: "sanitize_main E a w = (Finished, w') \<longrightarrow>
      (\<exists>n evs. log w' = log w @ evs @ [Stdout (converted_summary n)] \<and> file_lines evs
         \<and> n + errors evs = yields evs)"
    unfolding sanitize_main_def
    by (intro impI convert_main_summary [where conv = "\<lambda>w src. sanitize_convert E w src (quality a) (delete a)"])
       (rule sanitize_convert_quiet, assumption+)
  have p3: "strip_convert_main E a w = (Finished, w') \<longrightarrow>
      (\<exists>n evs. log w' = log w @ evs @ [Stdout (processed_summary n)] \<and> file_lines evs
         \<and> n + errors evs = yields evs)"
    using strip_convert_main_summary by blast
  have p4: "strip_main E a w = (Finished, w') \<longrightarrow>
      (\<exists>n evs. file_lines evs \<and> n + errors evs = yields evs
         \<and> log w' = log w @ evs
             @ [Stdout (if yields evs = 0
                        then no_files_message (parse_exts E (ext a)) (directory a) (recursive a)
                        else ''Done. Processed '' @ str_nat n @ '' file'' @ plural n @ ''.'')])"
    using strip_main_summary by blast
  have p5: "converted_summary 0 = ''No matching files converted (review [ERROR] lines).''"
    by (simp add: converted_summary_def)
  have p6: "converted_summary 1 = ''Done. Converted 1 file.''"
    by (simp add: converted_summary_def plural_def str_nat.simps digit_def)
  have p7: "2 \<le> k \<longrightarrow> converted_summary k = ''Done. Converted '' @ str_nat k @ '' files.''"
    by (simp add: converted_summary_def plural_def)
  have p8: "processed_summary 1 = ''Done. Processed 1 file.''"
    by (simp add: processed_summary_def plural_def str_nat.simps digit_def)
  have p9: "2 \<le> k \<longrightarrow> processed_summary k = ''Done. Processed '' @ str_nat k @ '' files.''"
    by (simp add: processed_summary_def plural_def)
  have p10: "''Done. Processed '' @ str_nat 0 @ '' file'' @ plural 0 @ ''.'' = ''Done. Processed 0 files.''"
    by (simp add: plural_def str_nat.simps digit_def)
  show ?thesis
    by (intro conjI p1 p2 p3 p4 p5 p6 p7 p8 p9 p10 summaries_not_file_lines)
qed


theorem C2_summary_shapes_witness:
  "heic_to_jpg_main (test_env test_listing) test_args test_world
     = (Finished, snd (heic_to_jpg_main (test_env test_listing) test_args test_world))
   \<and> (\<exists>n evs. log (snd (heic_to_jpg_main (test_env test_listing) test_args test_world))
                = log test_world @ evs @ [Stdout (converted_summary n)]
              \<and> file_lines evs \<and> n + errors evs = yields evs)
   \<and> strip_main (test_env [[''d'', ''ro.heic'']]) test_args test_world_tool
     = (Finished, snd (strip_main (test_env [[''d'', ''ro.heic'']]) test_args test_world_tool))
   \<and> (\<exists>n evs. file_lines evs \<and> n + errors evs = yields evs
        \<and> log (snd (strip_main (test_env [[''d'', ''ro.heic'']]) test_args test_world_tool))
           = log test_world_tool @ evs
             @ [Stdout (if yields evs = 0
                        then no_files_message (parse_exts (test_env [[''d'', ''ro.heic'']]) (ext test_args)) (directory test_args)
                               (recursive test_args)
                        else ''Done. Processed '' @ str_nat n @ '' file'' @ plural n @ ''.'')])
   \<and> (2::nat) \<le> 2 \<and> converted_summary 2 = ''Done. Converted '' @ str_nat 2 @ '' files.''"
proof -
  have "fst (heic_to_jpg_main (test_env test_listing) test_args test_world) = Finished"
    by code_simp
  then have f1: "heic_to_jpg_main (test_env test_listing) test_args test_world
     = (Finished, snd (heic_to_jpg_main (test_env test_listing) test_args test_world))"
    by (simp add: prod_eq_iff)
  have "fst (strip_main (test_env [[''d'', ''ro.heic'']]) test_args test_world_tool) = Finished"
    by code_simp
  then have f2: "strip_main (test_env [[''d'', ''ro.heic'']]) test_args test_world_tool
     = (Finished, snd (strip_main (test_env [[''d'', ''ro.heic'']]) test_args test_world_tool))"
    by (simp add: prod_eq_iff)
  have two: "(2::nat) \<le> 2" by simp
  note T = C2_summary_shapes [where E = "test_env test_listing" and a = test_args
      and w = test_world
      and w' = "snd (heic_to_jpg_main (test_env test_listing) test_args test_world)" and k = 2]
  note U = C2_summary_shapes [where E = "test_env [[''d'', ''ro.heic'']]" and a = test_args
      and w = test_world_tool
      and w' = "snd (strip_main (test_env [[''d'', ''ro.heic'']]) test_args test_world_tool)"]
  from T f1 have r1: "\<exists>n evs. log (snd (heic_to_jpg_main (test_env test_listing) test_args test_world))
                = log test_world @ evs @ [Stdout (converted_summary n)]
              \<and> file_lines evs \<and> n + errors evs = yields evs"
    by blast
  from U f2 have r2: "\<exists>n evs. file_lines evs \<and> n + errors evs = yields evs
        \<and> log (snd (strip_main (test_env [[''d'', ''ro.heic'']]) test_args test_world_tool))
           = log test_world_tool @ evs
             @ [Stdout (if yields evs = 0
                        then no_files_message (parse_exts (test_env [[''d'', ''ro.heic'']]) (ext test_args)) (directory test_args)
                               (recursive test_args)
                        else ''Done. Processed '' @ str_nat n @ '' file'' @ plural n @ ''.'')]"
    by blast
  from T two have r3: "converted_summary 2 = ''Done. Converted '' @ str_nat 2 @ '' files.''"
    by blast
  from f1 r1 f2 r2 two r3 show ?thesis by blast
qed

text \<open>
  C2, the claim as stated fails: strip\_heic\_metadata.py, on one file that ExifTool cannot
  write, ends with "Done. Processed 0 files." and not with a "no files processed" line; and
  heic\_to\_jpg.py prints the same summary for an empty directory and for a directory whose
  only image is corrupt.
\<close>

theorem C2_counterexample:
  "strip_main (test_env [[''d'', ''ro.heic'']]) test_args test_world_tool
     = (Finished, snd (strip_main (test_env [[''d'', ''ro.heic'']]) test_args test_world_tool))
   \<and> log (snd (strip_main (test_env [[''d'', ''ro.heic'']]) test_args test_world_tool))
     = [Yield [''d'', ''ro.heic''],
        Exec [''exiftool'', ''-overwrite_original'', ''-all='', ''d/ro.heic''],
        Stderr ''[ERROR] d/ro.heic: Error: not writable'',
        Stdout ''Done. Processed 0 files.'']
   \<and> log (snd (heic_to_jpg_main (test_env []) test_args test_world))
     = [Stdout ''No matching files converted (review [ERROR] lines).'']
   \<and> log (snd (heic_to_jpg_main (test_env [[''d'', ''bad.heic'']]) test_args test_world))
     = [Yield [''d'', ''bad.heic''], Opened [''d'', ''bad.heic''],
        Stderr ''[ERROR] bad.heic: cannot identify image file'',
        Stdout ''No matching files converted (review [ERROR] lines).'']"
proof -
  have "fst (strip_main (test_env [[''d'', ''ro.heic'']]) test_args test_world_tool) = Finished"
    by code_simp
  then have f: "strip_main (test_env [[''d'', ''ro.heic'']]) test_args test_world_tool
     = (Finished, snd (strip_main (test_env [[''d'', ''ro.heic'']]) test_args test_world_tool))"
    by (simp add: prod_eq_iff)
  have l1: "log (snd (strip_main (test_env [[''d'', ''ro.heic'']]) test_args test_world_tool))
     = [Yield [''d'', ''ro.heic''],
        Exec [''exiftool'', ''-overwrite_original'', ''-all='', ''d/ro.heic''],
        Stderr ''[ERROR] d/ro.heic: Error: not writable'',
        Stdout ''Done. Processed 0 files.'']"
    by code_simp
  have l2: "log (snd (heic_to_jpg_main (test_env []) test_args test_world))
     = [Stdout ''No matching files converted (review [ERROR] lines).'']"
    by code_simp
  have l3: "log (snd (heic_to_jpg_main (test_env [[''d'', ''bad.heic'']]) test_args test_world))
     = [Yield [''d'', ''bad.heic''], Opened [''d'', ''bad.heic''],
        Stderr ''[ERROR] bad.heic: cannot identify image file'',
        Stdout ''No matching files converted (review [ERROR] lines).'']"
    by code_simp
  from f l1 l2 l3 show ?thesis by (intro conjI)
qed

section \<open>What the counter counts\<close>

lemma count_returns_Suc:
  "count_returns P (Suc k) = count_returns P k + (if P k then 1 else 0)"
  by (simp add: count_returns_def)

lemma count_returns_cong:
  assumes "\<And>i. i < k \<Longrightarrow> P i = Q i"
  shows "count_returns P k = count_returns Q k"
proof -
  have "filter P [0..<k] = filter Q [0..<k]"
    by (rule filter_cong) (simp_all add: assms)
  then show ?thesis by (simp add: count_returns_def)
qed

lemma convert_files_append:
  "convert_files E conv exts (xs @ ys) tot w =
     (case convert_files E conv exts xs tot w of (t, w1) \<Rightarrow> convert_files E conv exts ys t w1)"
  by (induction xs arbitrary: tot w) (simp_all split: prod.splits sum.splits)

lemma strip_convert_files_append:
  "strip_convert_files E q del exts (xs @ ys) tot w =
     (case strip_convert_files E q del exts xs tot w of
        (Inl e, w1) \<Rightarrow> (Inl e, w1)
      | (Inr t, w1) \<Rightarrow> strip_convert_files E q del exts ys t w1)"
  by (induction xs arbitrary: tot w) (simp_all split: prod.splits sum.splits)

lemma strip_files_append:
  "strip_files E root kd (xs @ ys) cnt w =
     (case strip_files E root kd xs cnt w of
        (Inl e, w1) \<Rightarrow> (Inl e, w1)
      | (Inr t, w1) \<Rightarrow> strip_files E root kd ys t w1)"
  by (induction xs arbitrary: cnt w) (simp_all split: prod.splits sum.splits exn.splits)

lemma returns_at_snoc:
  "i < length xs \<Longrightarrow> returns_at E conv exts (xs @ [x]) tot w i = returns_at E conv exts xs tot w i"
  "returns_at E conv exts (xs @ [x]) tot w (length xs) =
     (case convert_files E conv exts xs tot w of
        (t, w1) \<Rightarrow> discovered E w1 exts x \<and> fst (conv (emit (Yield x) w1) x) = Inr ())"
  by (simp_all add: returns_at_def nth_append)

lemma strip_convert_returns_at_snoc:
  "i < length xs \<Longrightarrow> strip_convert_returns_at E q del exts (xs @ [x]) tot w i
     = strip_convert_returns_at E q del exts xs tot w i"
  "strip_convert_returns_at E q del exts (xs @ [x]) tot w (length xs) =
     (case strip_convert_files E q del exts xs tot w of
        (Inr t, w1) \<Rightarrow>
          discovered E w1 exts x \<and> fst (strip_then_convert E (emit (Yield x) w1) x q del) = Inr ()
      | (Inl e, w1) \<Rightarrow> False)"
  by (auto simp: strip_convert_returns_at_def nth_append split: prod.splits sum.splits)

lemma strip_returns_at_snoc:
  "i < length xs \<Longrightarrow> strip_returns_at E root kd (xs @ [x]) cnt w i
     = strip_returns_at E root kd xs cnt w i"
  "strip_returns_at E root kd (xs @ [x]) cnt w (length xs) =
     (case strip_files E root kd xs cnt w of
        (Inr t, w1) \<Rightarrow> fst (strip_metadata E w1 x kd) = Inr ()
      | (Inl e, w1) \<Rightarrow> False)"
  by (auto simp: strip_returns_at_def nth_append split: prod.splits sum.splits)

text \<open>
  The counter after a loop is its start value plus the number of positions at which the
  transform returned.
\<close>

lemma convert_files_returns:
  "convert_files E conv exts es tot w = (n, w') \<Longrightarrow>
     n = tot + count_returns (returns_at E conv exts es tot w) (length es)"
proof (induction es arbitrary: n w' rule: rev_induct)
  case Nil
  then show ?case by (simp add: count_returns_def)
next
  case (snoc x xs)
  obtain t w1 where l: "convert_files E conv exts xs tot w = (t, w1)"
    by (cases "convert_files E conv exts xs tot w")
  from snoc.IH [OF l] have t: "t = tot + count_returns (returns_at E conv exts xs tot w) (length xs)" .
  have same: "count_returns (returns_at E conv exts (xs @ [x]) tot w) (length xs)
      = count_returns (returns_at E conv exts xs tot w) (length xs)"
    by (rule count_returns_cong) (simp add: returns_at_snoc)
  from snoc.prems l have step: "convert_files E conv exts [x] t w1 = (n, w')"
    by (simp add: convert_files_append)
  have "n = t + (if discovered E w1 exts x \<and> fst (conv (emit (Yield x) w1) x) = Inr () then 1 else 0)"
    using step by (auto split: if_splits prod.splits sum.splits)
  with t same l show ?case
    by (simp add: count_returns_Suc returns_at_snoc)
qed

lemma strip_convert_files_returns:
  "strip_convert_files E q del exts es tot w = (Inr n, w') \<Longrightarrow>
     n = tot + count_returns (strip_convert_returns_at E q del exts es tot w) (length es)"
proof (induction es arbitrary: n w' rule: rev_induct)
  case Nil
  then show ?case by (simp add: count_returns_def)
next
  case (snoc x xs)
  from snoc.prems obtain t w1 where
    l: "strip_convert_files E q del exts xs tot w = (Inr t, w1)" and
    step: "strip_convert_files E q del exts [x] t w1 = (Inr n, w')"
    by (auto simp: strip_convert_files_append split: prod.splits sum.splits)
  from snoc.IH [OF l]
  have t: "t = tot + count_returns (strip_convert_returns_at E q del exts xs tot w) (length xs)" .
  have same: "count_returns (strip_convert_returns_at E q del exts (xs @ [x]) tot w) (length xs)
      = count_returns (strip_convert_returns_at E q del exts xs tot w) (length xs)"
    by (rule count_returns_cong) (simp add: strip_convert_returns_at_snoc)
  have "n = t + (if discovered E w1 exts x
                    \<and> fst (strip_then_convert E (emit (Yield x) w1) x q del) = Inr ()
                 then 1 else 0)"
    using step by (auto split: if_splits prod.splits sum.splits)
  with t same l show ?case
    by (simp add: count_returns_Suc strip_convert_returns_at_snoc)
qed

lemma strip_files_returns:
  "strip_files E root kd es cnt w = (Inr n, w') \<Longrightarrow>
     n = cnt + count_returns (strip_returns_at E root kd es cnt w) (length es)"
proof (induction es arbitrary: n w' rule: rev_induct)
  case Nil
  then show ?case by (simp add: count_returns_def)
next
  case (snoc x xs)
  from snoc.prems obtain t w1 where
    l: "strip_files E root kd xs cnt w = (Inr t, w1)" and
    step: "strip_files E root kd [x] t w1 = (Inr n, w')"
    by (auto simp: strip_files_append split: prod.splits sum.splits)
  from snoc.IH [OF l]
  have t: "t = cnt + count_returns (strip_returns_at E root kd xs cnt w) (length xs)" .
  have same: "count_returns (strip_returns_at E root kd (xs @ [x]) cnt w) (length xs)
      = count_returns (strip_returns_at E root kd xs cnt w) (length xs)"
    by (rule count_returns_cong) (simp add: strip_returns_at_snoc)
  have "n = t + (if fst (strip_metadata E w1 x kd) = Inr () then 1 else 0)"
    using step by (auto split: if_splits prod.splits sum.splits exn.splits)
  with t same l show ?case
    by (simp add: count_returns_Suc strip_returns_at_snoc)
qed

text \<open>The summary line of a finished run carries that count.\<close>

lemma convert_main_count:
  assumes "convert_main conv E a w = (Finished, w')"
  shows "last (log w') = Stdout (converted_summary
           (count_returns (returns_at E conv (parse_exts E (ext a))
              (fst (entries E w (directory a) (recursive a))) 0 w)
              (length (fst (entries E w (directory a) (recursive a))))))"
proof -
  obtain n w1 where l: "convert_files E conv (parse_exts E (ext a))
      (fst (entries E w (directory a) (recursive a))) 0 w = (n, w1)"
    by (cases "convert_files E conv (parse_exts E (ext a))
      (fst (entries E w (directory a) (recursive a))) 0 w")
  with assms have "w' = print (converted_summary n) w1"
    by (simp add: convert_main_def split: if_splits prod.splits option.splits)
  with convert_files_returns [OF l] show ?thesis
    by (simp add: print_def emit_def)
qed

lemma strip_convert_main_count:
  assumes "strip_convert_main E a w = (Finished, w')"
  shows "last (log w') = Stdout (processed_summary
           (count_returns (strip_convert_returns_at E (quality a) (\<not> keep a) (parse_exts E (ext a))
              (fst (entries E w (directory a) (recursive a))) 0 w)
              (length (fst (entries E w (directory a) (recursive a))))))"
proof -
  obtain r w1 where l: "strip_convert_files E (quality a) (\<not> keep a) (parse_exts E (ext a))
      (fst (entries E w (directory a) (recursive a))) 0 w = (r, w1)"
    by (cases "strip_convert_files E (quality a) (\<not> keep a) (parse_exts E (ext a))
      (fst (entries E w (directory a) (recursive a))) 0 w")
  with assms obtain n where r: "r = Inr n" and "w' = print (processed_summary n) w1"
    by (cases r) (auto simp: strip_convert_main_def split: if_splits prod.splits option.splits)
  with strip_convert_files_returns [of E "quality a" "\<not> keep a" "parse_exts E (ext a)"
      "fst (entries E w (directory a) (recursive a))" 0 w n w1] l
  show ?thesis
    by (simp add: print_def emit_def)
qed

lemma strip_main_count:
  assumes "strip_main E a w = (Finished, w')"
    and "files = filter (discovered E w (parse_exts E (ext a)))
                   (fst (entries E w (directory a) (recursive a)))"
    and "files \<noteq> []"
  shows "\<exists>n. last (log w') = Stdout (''Done. Processed '' @ str_nat n @ '' file'' @ plural n @ ''.'')
       \<and> n = count_returns (strip_returns_at E (directory a) (keep_datetimes a) files 0
                (fold (\<lambda>f. emit (Yield f)) files w)) (length files)"
proof -
  define w0 where "w0 = fold (\<lambda>f. emit (Yield f)) files w"
  obtain r w1 where l: "strip_files E (directory a) (keep_datetimes a) files 0 w0 = (r, w1)"
    by (cases "strip_files E (directory a) (keep_datetimes a) files 0 w0")
  with assms obtain n where r: "r = Inr n" and
    w': "w' = print (''Done. Processed '' @ str_nat n @ '' file'' @ plural n @ ''.'') w1"
    by (cases r) (auto simp: strip_main_def Let_def w0_def split: if_splits)
  from strip_files_returns [of E "directory a" "keep_datetimes a" files 0 w0 n w1] l r
  have "n = count_returns (strip_returns_at E (directory a) (keep_datetimes a) files 0 w0)
              (length files)"
    by simp
  with w' show ?thesis
    by (simp add: print_def emit_def w0_def)
qed

text \<open>
  C1, as amended. In each loop the counter is incremented exactly when the transform of a
  discovered file returned without raising: after the loop it is the start value plus the
  number of such files. A file that fails is not counted. A file that is skipped because its
  destination exists is counted whenever the convert function returns normally on the skip
  path: always in heic\_to\_jpg.py and sanitize\_heic\_to\_jpg.py, and in
  heic\_strip\_and\_convert\_to\_jpg.py unless the unlink on that path raises. The number in the
  final summary is this count.
\<close>

theorem C1_counter_counts_returns:
  "(convert_files E (\<lambda>w src. convert E w src q del) exts es tot w = (n, w') \<longrightarrow>
      n = tot + count_returns (returns_at E (\<lambda>w src. convert E w src q del) exts es tot w)
                  (length es))
   \<and> (convert_files E (\<lambda>w src. sanitize_convert E w src q del) exts es tot w = (n, w') \<longrightarrow>
      n = tot + count_returns
                  (returns_at E (\<lambda>w src. sanitize_convert E w src q del) exts es tot w)
                  (length es))
   \<and> (strip_convert_files E q del exts es tot w = (Inr n, w') \<longrightarrow>
      n = tot + count_returns (strip_convert_returns_at E q del exts es tot w) (length es))
   \<and> (strip_files E root kd es tot w = (Inr n, w') \<longrightarrow>
      n = tot + count_returns (strip_returns_at E root kd es tot w) (length es))
   \<and> (with_suffix src ''.jpg'' = Inr dst \<and> exists w dst \<longrightarrow>
        convert E w src q del = (Inr (), print (skip_line dst) w)
      \<and> sanitize_convert E w src q del = (Inr (), print (skip_line dst) w)
      \<and> (fst (convert_to_jpg E w src q del) = Inr ()
           \<longleftrightarrow> (del \<longrightarrow> fst (unlink E w src True) = Inr ())))
   \<and> (heic_to_jpg_main E a w = (Finished, wm) \<longrightarrow>
        last (log wm) = Stdout (converted_summary
          (count_returns
             (returns_at E (\<lambda>w src. convert E w src (quality a) (delete a))
                (parse_exts E (ext a)) (fst (entries E w (directory a) (recursive a))) 0 w)
             (length (fst (entries E w (directory a) (recursive a)))))))
   \<and> (sanitize_main E a w = (Finished, wm) \<longrightarrow>
        last (log wm) = Stdout (converted_summary
          (count_returns
             (returns_at E (\<lambda>w src. sanitize_convert E w src (quality a) (delete a))
                (parse_exts E (ext a)) (fst (entries E w (directory a) (recursive a))) 0 w)
             (length (fst (entries E w (directory a) (recursive a)))))))
   \<and> (strip_convert_main E a w = (Finished, wm) \<longrightarrow>
        last (log wm) = Stdout (processed_summary
          (count_returns
             (strip_convert_returns_at E (quality a) (\<not> keep a) (parse_exts E (ext a))
                (fst (entries E w (directory a) (recursive a))) 0 w)
             (length (fst (entries E w (directory a) (recursive a)))))))
   \<and> (strip_main E a w = (Finished, wm)
        \<and> files = filter (discovered E w (parse_exts E (ext a)))
                    (fst (entries E w (directory a) (recursive a)))
        \<and> files \<noteq> []
        \<and> k = count_returns (strip_returns_at E (directory a) (keep_datetimes a) files 0
                 (fold (\<lambda>f. emit (Yield f)) files w)) (length files) \<longrightarrow>
        last (log wm) = Stdout (''Done. Processed '' @ str_nat k @ '' file'' @ plural k @ ''.''))"
proof -
  have p1: "convert_files E (\<lambda>w src. convert E w src q del) exts es tot w = (n, w') \<longrightarrow>
      n = tot + count_returns (returns_at E (\<lambda>w src. convert E w src q del) exts es tot w)
                  (length es)"
    by (intro impI convert_files_returns)
  have p2: "convert_files E (\<lambda>w src. sanitize_convert E w src q del) exts es tot w = (n, w') \<longrightarrow>
      n = tot + count_returns
                  (returns_at E (\<lambda>w src. sanitize_convert E w src q del) exts es tot w)
                  (length es)"
    by (intro impI convert_files_returns)
  have p3: "strip_convert_files E q del exts es tot w = (Inr n, w') \<longrightarrow>
      n = tot + count_returns (strip_convert_returns_at E q del exts es tot w) (length es)"
    by (intro impI strip_convert_files_returns)
  have p4: "strip_files E root kd es tot w = (Inr n, w') \<longrightarrow>
      n = tot + count_returns (strip_returns_at E root kd es tot w) (length es)"
    by (intro impI strip_files_returns)
  have p5: "with_suffix src ''.jpg'' = Inr dst \<and> exists w dst \<longrightarrow>
        convert E w src q del = (Inr (), print (skip_line dst) w)
      \<and> sanitize_convert E w src q del = (Inr (), print (skip_line dst) w)
      \<and> (fst (convert_to_jpg E w src q del) = Inr ()
           \<longleftrightarrow> (del \<longrightarrow> fst (unlink E w src True) = Inr ()))"
    by (auto simp: convert_def sanitize_convert_def convert_to_jpg_def Let_def unlink_def
        print_def emit_def split: option.splits node.splits prod.splits sum.splits)
  have p6: "heic_to_jpg_main E a w = (Finished, wm) \<longrightarrow>
        last (log wm) = Stdout (converted_summary
          (count_returns
             (returns_at E (\<lambda>w src. convert E w src (quality a) (delete a))
                (parse_exts E (ext a)) (fst (entries E w (directory a) (recursive a))) 0 w)
             (length (fst (entries E w (directory a) (recursive a))))))"
    unfolding heic_to_jpg_main_def by (intro impI convert_main_count)
  have p7: "sanitize_main E a w = (Finished, wm) \<longrightarrow>
        last (log wm) = Stdout (converted_summary
          (count_returns
             (returns_at E (\<lambda>w src. sanitize_convert E w src (quality a) (delete a))
                (parse_exts E (ext a)) (fst (entries E w (directory a) (recursive a))) 0 w)
             (length (fst (entries E w (directory a) (recursive a))))))"
    unfolding sanitize_main_def by (intro impI convert_main_count)
  have p8: "strip_convert_main E a w = (Finished, wm) \<longrightarrow>
        last (log wm) = Stdout (processed_summary
          (count_returns
             (strip_convert_returns_at E (quality a) (\<not> keep a) (parse_exts E (ext a))
                (fst (entries E w (directory a) (recursive a))) 0 w)
             (length (fst (entries E w (directory a) (recursive a))))))"
    by (intro impI strip_convert_main_count)
  have p9: "strip_main E a w = (Finished, wm)
        \<and> files = filter (discovered E w (parse_exts E (ext a)))
                    (fst (entries E w (directory a) (recursive a)))
        \<and> files \<noteq> []
        \<and> k = count_returns (strip_returns_at E (directory a) (keep_datetimes a) files 0
                 (fold (\<lambda>f. emit (Yield f)) files w)) (length files) \<longrightarrow>
        last (log wm) = Stdout (''Done. Processed '' @ str_nat k @ '' file'' @ plural k @ ''.'')"
    using strip_main_count [of E a w wm files] by blast
  show ?thesis
    by (intro conjI p1 p2 p3 p4 p5 p6 p7 p8 p9)
qed

text \<open>
  C1, the claim as stated fails on the scenario of the specification: one fresh image, one
  image whose JPEG exists, one corrupt file. One output is written, one file is skipped, one
  fails, and the summary counts two.
\<close>

theorem C1_counterexample:
  "log (snd (heic_to_jpg_main (test_env test_listing) test_args test_world))
     = [Yield [''d'', ''new.heic''], Opened [''d'', ''new.heic''], Saved [''d'', ''new.jpg''],
        Stdout (''[OK] new.heic '' @ [CHR 0xE2, CHR 0x86, CHR 0x92] @ '' new.jpg''),
        Yield [''d'', ''old.heic''], Stdout ''[SKIP] old.jpg already exists'',
        Yield [''d'', ''bad.heic''], Opened [''d'', ''bad.heic''],
        Stderr ''[ERROR] bad.heic: cannot identify image file'',
        Stdout ''Done. Converted 2 files.'']"
  by code_simp


theorem C1_counter_counts_returns_witness:
  "convert_files (test_env test_listing) (\<lambda>w src. convert (test_env test_listing) w src 90 False)
       [''heic'', ''heif''] test_listing 0 test_world
     = (2, snd (convert_files (test_env test_listing)
                  (\<lambda>w src. convert (test_env test_listing) w src 90 False)
                  [''heic'', ''heif''] test_listing 0 test_world))
   \<and> (2::nat) = 0 + count_returns
         (returns_at (test_env test_listing)
            (\<lambda>w src. convert (test_env test_listing) w src 90 False)
            [''heic'', ''heif''] test_listing 0 test_world) (length test_listing)
   \<and> test_listing = [[''d'', ''new.heic''], [''d'', ''old.heic''], [''d'', ''old.jpg''],
                       [''d'', ''bad.heic'']]
   \<and> returns_at (test_env test_listing) (\<lambda>w src. convert (test_env test_listing) w src 90 False)
        [''heic'', ''heif''] test_listing 0 test_world 0
   \<and> returns_at (test_env test_listing) (\<lambda>w src. convert (test_env test_listing) w src 90 False)
        [''heic'', ''heif''] test_listing 0 test_world 1
   \<and> \<not> returns_at (test_env test_listing) (\<lambda>w src. convert (test_env test_listing) w src 90 False)
        [''heic'', ''heif''] test_listing 0 test_world 2
   \<and> \<not> returns_at (test_env test_listing) (\<lambda>w src. convert (test_env test_listing) w src 90 False)
        [''heic'', ''heif''] test_listing 0 test_world 3
   \<and> with_suffix [''d'', ''old.heic''] ''.jpg'' = Inr [''d'', ''old.jpg'']
   \<and> exists test_world [''d'', ''old.jpg'']
   \<and> convert (test_env test_listing) test_world [''d'', ''old.heic''] 90 False
       = (Inr (), print (skip_line [''d'', ''old.jpg'']) test_world)
   \<and> skip_line [''d'', ''old.jpg''] = ''[SKIP] old.jpg already exists''
   \<and> heic_to_jpg_main (test_env test_listing) test_args test_world
       = (Finished, snd (heic_to_jpg_main (test_env test_listing) test_args test_world))
   \<and> last (log (snd (heic_to_jpg_main (test_env test_listing) test_args test_world)))
       = Stdout (converted_summary
          (count_returns
             (returns_at (test_env test_listing)
                (\<lambda>w src. convert (test_env test_listing) w src (quality test_args)
                           (delete test_args))
                (parse_exts (test_env test_listing) (ext test_args))
                (fst (entries (test_env test_listing) test_world (directory test_args)
                        (recursive test_args))) 0 test_world)
             (length (fst (entries (test_env test_listing) test_world (directory test_args)
                             (recursive test_args))))))
   \<and> converted_summary
          (count_returns
             (returns_at (test_env test_listing)
                (\<lambda>w src. convert (test_env test_listing) w src (quality test_args)
                           (delete test_args))
                (parse_exts (test_env test_listing) (ext test_args))
                (fst (entries (test_env test_listing) test_world (directory test_args)
                        (recursive test_args))) 0 test_world)
             (length (fst (entries (test_env test_listing) test_world (directory test_args)
                             (recursive test_args)))))
       = ''Done. Converted 2 files.''"
proof -
  have "fst (convert_files (test_env test_listing)
               (\<lambda>w src. convert (test_env test_listing) w src 90 False)
               [''heic'', ''heif''] test_listing 0 test_world) = 2"
    by code_simp
  then have run: "convert_files (test_env test_listing)
       (\<lambda>w src. convert (test_env test_listing) w src 90 False)
       [''heic'', ''heif''] test_listing 0 test_world
     = (2, snd (convert_files (test_env test_listing)
                  (\<lambda>w src. convert (test_env test_listing) w src 90 False)
                  [''heic'', ''heif''] test_listing 0 test_world))"
    by (simp add: prod_eq_iff)
  have lst: "test_listing = [[''d'', ''new.heic''], [''d'', ''old.heic''], [''d'', ''old.jpg''],
                       [''d'', ''bad.heic'']]"
    by (simp add: test_listing_def)
  have r0: "returns_at (test_env test_listing)
        (\<lambda>w src. convert (test_env test_listing) w src 90 False)
        [''heic'', ''heif''] test_listing 0 test_world 0"
    by code_simp
  have r1: "returns_at (test_env test_listing)
        (\<lambda>w src. convert (test_env test_listing) w src 90 False)
        [''heic'', ''heif''] test_listing 0 test_world 1"
    by code_simp
  have r2: "\<not> returns_at (test_env test_listing)
        (\<lambda>w src. convert (test_env test_listing) w src 90 False)
        [''heic'', ''heif''] test_listing 0 test_world 2"
    by code_simp
  have r3: "\<not> returns_at (test_env test_listing)
        (\<lambda>w src. convert (test_env test_listing) w src 90 False)
        [''heic'', ''heif''] test_listing 0 test_world 3"
    by code_simp
  have s: "with_suffix [''d'', ''old.heic''] ''.jpg'' = Inr [''d'', ''old.jpg'']"
    by (simp add: with_suffix_def name_def suffix_def)
  have e: "exists test_world [''d'', ''old.jpg'']"
    by (simp add: exists_def test_world_def)
  have sk: "skip_line [''d'', ''old.jpg''] = ''[SKIP] old.jpg already exists''"
    by (simp add: skip_line_def name_def)
  have "fst (heic_to_jpg_main (test_env test_listing) test_args test_world) = Finished"
    by code_simp
  then have fin: "heic_to_jpg_main (test_env test_listing) test_args test_world
       = (Finished, snd (heic_to_jpg_main (test_env test_listing) test_args test_world))"
    by (simp add: prod_eq_iff)
  have two: "converted_summary
          (count_returns
             (returns_at (test_env test_listing)
                (\<lambda>w src. convert (test_env test_listing) w src (quality test_args)
                           (delete test_args))
                (parse_exts (test_env test_listing) (ext test_args))
                (fst (entries (test_env test_listing) test_world (directory test_args)
                        (recursive test_args))) 0 test_world)
             (length (fst (entries (test_env test_listing) test_world (directory test_args)
                             (recursive test_args)))))
       = ''Done. Converted 2 files.''"
    by code_simp
  note T = C1_counter_counts_returns [where E = "test_env test_listing" and q = 90
      and del = False and exts = "[''heic'', ''heif'']" and es = test_listing and tot = 0
      and w = test_world and n = 2
      and w' = "snd (convert_files (test_env test_listing)
                  (\<lambda>w src. convert (test_env test_listing) w src 90 False)
                  [''heic'', ''heif''] test_listing 0 test_world)"
      and src = "[''d'', ''old.heic'']" and dst = "[''d'', ''old.jpg'']" and a = test_args
      and wm = "snd (heic_to_jpg_main (test_env test_listing) test_args test_world)"]
  note c = T [THEN conjunct1, THEN mp, OF run]
  note k5 = T [THEN conjunct2, THEN conjunct2, THEN conjunct2, THEN conjunct2, THEN conjunct1,
      THEN mp, OF conjI [OF s e], THEN conjunct1]
  note k6 = T [THEN conjunct2, THEN conjunct2, THEN conjunct2, THEN conjunct2, THEN conjunct2,
      THEN conjunct1, THEN mp, OF fin]
  show ?thesis
    by (intro conjI run c lst r0 r1 r2 r3 s e k5 sk fin k6 two)
qed

text \<open>
  When the directory iterator ends normally, the loop of heic\_to\_jpg.py and of
  sanitize\_heic\_to\_jpg.py leaves no exception of a file uncaught. An exception of the
  iterator itself is raised in the \<open>for\<close> statement, outside the \<open>try\<close>, and ends \<open>main\<close>.
\<close>

lemma convert_main_catches:
  "snd (entries E w (directory a) (recursive a)) = None \<Longrightarrow>
     fst (convert_main conv E a w) \<noteq> Uncaught exc"
  by (auto simp: convert_main_def split: prod.splits option.splits)

lemma convert_main_iterator_raises:
  assumes "exists w (directory a)" and "1 \<le> quality a" and "quality a \<le> 100"
    and "parse_exts E (ext a) \<noteq> []"
    and "snd (entries E w (directory a) (recursive a)) = Some msg"
  shows "fst (convert_main conv E a w) = Uncaught (Exception msg)"
  using assms by (auto simp: convert_main_def split: prod.splits option.splits)

text \<open>
  C3. heic\_strip\_and\_convert\_to\_jpg.py, two files: ExifTool exits non-zero on the first with
  an error stream that is not UTF-8. The \<open>except CalledProcessError\<close> clause decodes the stream
  strictly, the decoding raises inside the handler, and the exception leaves \<open>main\<close>: no
  \<open>[ERROR]\<close> line, the second file is never reached, no summary. strip\_heic\_metadata.py,
  which decodes with \<open>errors='ignore'\<close>, reports the first file and goes on to the second.
\<close>

theorem C3_report_raises:
  "fst (strip_convert_main (test_env [[''d'', ''locked.heic''], [''d'', ''new.heic'']]) test_args
          test_world_tool)
     = Uncaught UnicodeDecodeError
   \<and> log (snd (strip_convert_main (test_env [[''d'', ''locked.heic''], [''d'', ''new.heic'']])
                 test_args test_world_tool))
     = [Yield [''d'', ''locked.heic''],
        Exec [''exiftool'', ''-overwrite_original'', ''-all='', ''d/locked.heic'']]
   \<and> fs (snd (strip_convert_main (test_env [[''d'', ''locked.heic''], [''d'', ''new.heic'']])
                test_args test_world_tool)) [''d'', ''new.heic'']
     = Some (File ''dated'')
   \<and> fs (snd (strip_convert_main (test_env [[''d'', ''locked.heic''], [''d'', ''new.heic'']])
                test_args test_world_tool)) [''d'', ''new.jpg'']
     = None
   \<and> log (snd (strip_main (test_env [[''d'', ''locked.heic''], [''d'', ''new.heic'']])
                 test_args test_world_tool))
     = [Yield [''d'', ''locked.heic''], Yield [''d'', ''new.heic''],
        Exec [''exiftool'', ''-overwrite_original'', ''-all='', ''d/locked.heic''],
        Stderr ''[ERROR] d/locked.heic: '',
        Exec [''exiftool'', ''-overwrite_original'', ''-all='', ''d/new.heic''],
        Stdout ''[OK] Stripped metadata from new.heic'',
        Stdout ''Done. Processed 1 file.'']"
  by code_simp

section \<open>Files that share a destination\<close>

lemma suffix_is_tail: "n = take (length n - length (suffix n)) n @ suffix n"
proof (cases "suffix n = []")
  case True
  then show ?thesis by simp
next
  case False
  define e where "e = takeWhile (\<lambda>c. c \<noteq> CHR ''.'') (rev n)"
  from False have dot: "CHR ''.'' \<in> set n" and sfx: "suffix n = CHR ''.'' # rev e"
    by (auto simp: suffix_def e_def Let_def split: if_splits)
  from dot have "dropWhile (\<lambda>c. c \<noteq> CHR ''.'') (rev n) \<noteq> []"
    by (simp add: dropWhile_eq_Nil_conv)
  then obtain c r where cr: "dropWhile (\<lambda>c. c \<noteq> CHR ''.'') (rev n) = c # r"
    by (cases "dropWhile (\<lambda>c. c \<noteq> CHR ''.'') (rev n)") auto
  with hd_dropWhile [of "\<lambda>c. c \<noteq> CHR ''.''" "rev n"] have c: "c = CHR ''.''"
    by simp
  have "rev n = e @ dropWhile (\<lambda>c. c \<noteq> CHR ''.'') (rev n)"
    by (simp add: e_def)
  with cr c have "rev (rev n) = rev (e @ CHR ''.'' # r)"
    by simp
  then have "n = rev r @ CHR ''.'' # rev e"
    by simp
  with sfx show ?thesis by simp
qed

lemma suffix_shorter: "n \<noteq> [] \<Longrightarrow> length (suffix n) < length n"
  by (auto simp: suffix_def Let_def)

lemma suffix_jpg: "x \<noteq> [] \<Longrightarrow> suffix (x @ ''.jpg'') = ''.jpg''"
  by (simp add: suffix_def)

lemma with_suffix_shape:
  assumes "with_suffix p ''.jpg'' = Inr d"
  shows "\<exists>x. x \<noteq> [] \<and> d = butlast p @ [x @ ''.jpg'']"
proof -
  from assms have n: "name p \<noteq> []"
    and d: "d = butlast p @ [take (length (name p) - length (suffix (name p))) (name p) @ ''.jpg'']"
    by (auto simp: with_suffix_def split: if_splits)
  from suffix_shorter [OF n] n have "take (length (name p) - length (suffix (name p))) (name p) \<noteq> []"
    by simp
  with d show ?thesis by blast
qed

lemma with_suffix_idem:
  assumes "with_suffix p ''.jpg'' = Inr d"
  shows "with_suffix d ''.jpg'' = Inr d"
proof -
  from with_suffix_shape [OF assms] obtain x where x: "x \<noteq> []" "d = butlast p @ [x @ ''.jpg'']"
    by blast
  then have "name d = x @ ''.jpg''" by (simp add: name_def)
  with x show ?thesis
    by (simp add: with_suffix_def suffix_jpg)
qed

lemma dst_suffix:
  assumes "with_suffix p ''.jpg'' = Inr d"
  shows "suffix (name d) = ''.jpg''"
proof -
  from with_suffix_shape [OF assms] obtain x where x: "x \<noteq> []" "d = butlast p @ [x @ ''.jpg'']"
    by blast
  then show ?thesis by (simp add: name_def suffix_jpg)
qed

lemma with_suffix_replaces:
  assumes "suffix (stem @ s) = s" and "s \<noteq> []"
  shows "with_suffix (dir @ [stem @ s]) ''.jpg'' = Inr (dir @ [stem @ ''.jpg''])"
  using assms by (simp add: with_suffix_def name_def)


lemma saves_simps [simp]:
  "saves d [] = 0" "saves d (evs @ evs') = saves d evs + saves d evs'"
  "saves d (Yield p # evs) = saves d evs" "saves d (Stdout s # evs) = saves d evs"
  "saves d (Stderr s # evs) = saves d evs" "saves d (Exec argv # evs) = saves d evs"
  "saves d (Opened p # evs) = saves d evs"
  "saves d (Saved p # evs) = (if p = d then Suc (saves d evs) else saves d evs)"
  "saves d (Unlinked p # evs) = saves d evs"
  by (simp_all add: saves_def)

text \<open>
  What a conversion step does to a path \<open>d\<close> that has the shape of a destination: it saves
  to \<open>d\<close> only when \<open>d\<close> is absent, and \<open>d\<close> is in place afterwards.
\<close>

lemma convert_keeps:
  assumes c: "convert E w src q del = (r, w')" and d: "with_suffix d ''.jpg'' = Inr d"
  shows "\<exists>evs. log w' = log w @ evs
      \<and> saves d evs + (if exists w d then 1 else 0) \<le> (if exists w' d then 1 else 0)"
proof (cases "with_suffix src ''.jpg''")
  case (Inl e)
  with c show ?thesis by (simp add: convert_def)
next
  case (Inr dst)
  show ?thesis
  proof (cases "src = d")
    case True
    with d Inr have "dst = src" by simp
    with convert_effects [OF c Inr] True show ?thesis
      by (auto simp: print_def emit_def exists_def is_file_def split: option.splits)
  next
    case False
    with convert_effects [OF c Inr] show ?thesis
      by (elim disjE conjE exE) (auto simp: exists_def print_def emit_def)
  qed
qed

lemma sanitize_convert_keeps:
  assumes c: "sanitize_convert E w src q del = (r, w')" and d: "with_suffix d ''.jpg'' = Inr d"
  shows "\<exists>evs. log w' = log w @ evs
      \<and> saves d evs + (if exists w d then 1 else 0) \<le> (if exists w' d then 1 else 0)"
proof (cases "with_suffix src ''.jpg''")
  case (Inl e)
  with c show ?thesis by (simp add: sanitize_convert_def)
next
  case (Inr dst)
  show ?thesis
  proof (cases "src = d")
    case True
    with d Inr have "dst = src" by simp
    with sanitize_convert_effects [OF c Inr] True show ?thesis
      by (auto simp: print_def emit_def exists_def is_file_def split: option.splits)
  next
    case False
    with sanitize_convert_effects [OF c Inr] show ?thesis
      by (elim disjE conjE exE) (auto simp: exists_def print_def emit_def)
  qed
qed

lemma convert_to_jpg_keeps:
  assumes c: "convert_to_jpg E w src q del = (r, w')" and ne: "src \<noteq> d"
  shows "\<exists>evs. log w' = log w @ evs
      \<and> saves d evs + (if exists w d then 1 else 0) \<le> (if exists w' d then 1 else 0)"
proof (cases "with_suffix src ''.jpg''")
  case (Inl e)
  with c show ?thesis by (simp add: convert_to_jpg_def)
next
  case (Inr dst)
  with convert_to_jpg_effects [OF c Inr] ne show ?thesis
    by (elim disjE conjE exE) (auto simp: exists_def print_def emit_def)
qed

lemma strip_then_convert_keeps:
  assumes c: "strip_then_convert E w src q del = (r, w')" and ne: "src \<noteq> d"
  shows "\<exists>evs. log w' = log w @ evs
      \<and> saves d evs + (if exists w d then 1 else 0) \<le> (if exists w' d then 1 else 0)"
proof (cases "strip_all_metadata E w src")
  case (Pair r1 w1)
  then have l1: "log w1 = log w @ [Exec [''exiftool'', ''-overwrite_original'', ''-all='', path_str src]]"
    by (simp add: strip_all_metadata_def run_tool_log)
  from Pair ne have e1: "exists w1 d = exists w d"
    by (auto simp: strip_all_metadata_def run_tool_def Let_def emit_def exists_def
        split: option.splits node.splits proc.splits)
  show ?thesis
  proof (cases r1)
    case (Inl exc)
    with Pair c l1 e1 show ?thesis by (auto simp: strip_then_convert_def)
  next
    case (Inr u)
    obtain r2 w2 where c2: "convert_to_jpg E w1 src q del = (r2, w2)"
      by (cases "convert_to_jpg E w1 src q del")
    from convert_to_jpg_keeps [OF c2 ne] obtain evs where
      "log w2 = log w1 @ evs"
      "saves d evs + (if exists w1 d then 1 else 0) \<le> (if exists w2 d then 1 else 0)"
      by blast
    moreover from Pair Inr c2 c have "w' = w2"
      by (auto simp: strip_then_convert_def split: sum.splits)
    ultimately show ?thesis using l1 e1
      by (intro exI [of _ "Exec [''exiftool'', ''-overwrite_original'', ''-all='', path_str src] # evs"])
         simp
  qed
qed

lemma convert_files_keeps:
  assumes step: "\<And>w p r w'. conv w p = (r, w') \<Longrightarrow>
      \<exists>evs. log w' = log w @ evs
        \<and> saves d evs + (if exists w d then 1 else 0) \<le> (if exists w' d then 1 else 0)"
  shows "convert_files E conv exts es tot w = (n, w') \<Longrightarrow>
      \<exists>evs. log w' = log w @ evs
        \<and> saves d evs + (if exists w d then 1 else 0) \<le> (if exists w' d then 1 else 0)"
proof (induction es arbitrary: tot w)
  case Nil
  then show ?case by simp
next
  case (Cons src rest)
  show ?case
  proof (cases "discovered E w exts src")
    case False
    with Cons.prems have "convert_files E conv exts rest tot w = (n, w')" by simp
    from Cons.IH [OF this] show ?thesis .
  next
    case True
    obtain r w1 where c: "conv (emit (Yield src) w) src = (r, w1)"
      by (cases "conv (emit (Yield src) w) src")
    from step [OF c] obtain evs1 where
      e1: "log w1 = log w @ Yield src # evs1"
          "saves d evs1 + (if exists w d then 1 else 0) \<le> (if exists w1 d then 1 else 0)"
      by (auto simp: emit_def exists_def)
    obtain w2 tot2 where
      rest: "convert_files E conv exts rest tot2 w2 = (n, w')" and
      w2: "w2 = w1 \<or> (\<exists>s. w2 = eprint s w1)"
      using True c Cons.prems by (cases r) auto
    from Cons.IH [OF rest] obtain evs where
      e2: "log w' = log w2 @ evs"
          "saves d evs + (if exists w2 d then 1 else 0) \<le> (if exists w' d then 1 else 0)"
      by blast
    from w2 obtain mid where
      mid: "log w2 = log w1 @ mid" "saves d mid = 0" "exists w2 d = exists w1 d"
      by (auto simp: eprint_def emit_def exists_def)
    from e1 e2 mid show ?thesis
      by (intro exI [of _ "Yield src # evs1 @ mid @ evs"]) (simp split: if_splits)
  qed
qed


lemma unlinks_simps [simp]:
  "unlinks d [] = 0" "unlinks d (evs @ evs') = unlinks d evs + unlinks d evs'"
  "unlinks d (Yield p # evs) = unlinks d evs" "unlinks d (Stdout s # evs) = unlinks d evs"
  "unlinks d (Stderr s # evs) = unlinks d evs" "unlinks d (Exec argv # evs) = unlinks d evs"
  "unlinks d (Opened p # evs) = unlinks d evs" "unlinks d (Saved p # evs) = unlinks d evs"
  "unlinks d (Unlinked p # evs) = (if p = d then Suc (unlinks d evs) else unlinks d evs)"
  by (simp_all add: unlinks_def)

text \<open>
  heic\_strip\_and\_convert\_to\_jpg.py can unlink a destination: on the skip path, when the
  source is the destination itself. Nothing is saved in such a step.
\<close>

lemma strip_then_convert_self:
  assumes c: "strip_then_convert E w d q del = (r, w')" and dd: "with_suffix d ''.jpg'' = Inr d"
  shows "\<exists>evs. log w' = log w @ evs \<and> saves d evs = 0"
proof (cases "strip_all_metadata E w d")
  case (Pair r1 w1)
  then have l1: "log w1 = log w @ [Exec [''exiftool'', ''-overwrite_original'', ''-all='', path_str d]]"
    by (simp add: strip_all_metadata_def run_tool_log)
  show ?thesis
  proof (cases r1)
    case (Inl exc)
    with Pair c l1 show ?thesis by (auto simp: strip_then_convert_def)
  next
    case (Inr u)
    obtain r2 w2 where c2: "convert_to_jpg E w1 d q del = (r2, w2)"
      by (cases "convert_to_jpg E w1 d q del")
    from convert_to_jpg_effects [OF c2 dd] obtain evs where
      "log w2 = log w1 @ evs" "saves d evs = 0"
      by (elim disjE conjE exE) (auto simp: exists_def is_file_def split: option.splits)
    moreover from Pair Inr c2 c have "w' = w2"
      by (auto simp: strip_then_convert_def split: sum.splits)
    ultimately show ?thesis using l1
      by (intro exI [of _ "Exec [''exiftool'', ''-overwrite_original'', ''-all='', path_str d] # evs"])
         simp
  qed
qed

text \<open>
  The paths of a run are distinct and exist when the loop starts. So a destination that is
  itself among them is in place until the loop reaches it, and is reached once.
\<close>

lemma entries_snapshot:
  "distinct (fst (entries E w root rec))"
  "p \<in> set (fst (entries E w root rec)) \<Longrightarrow> exists w p"
  by (auto simp: entries_def split: prod.splits if_splits)

lemma strip_convert_files_saves:
  assumes dd: "with_suffix d ''.jpg'' = Inr d"
  shows "strip_convert_files E q del exts es tot w = (r, w') \<Longrightarrow> distinct es \<Longrightarrow>
      (d \<in> set es \<longrightarrow> exists w d) \<Longrightarrow>
      \<exists>evs. log w' = log w @ evs
        \<and> saves d evs + (if exists w d then 1 else 0) \<le> 1 + (if d \<in> set es then 1 else 0)"
proof (induction es arbitrary: tot w)
  case Nil
  then show ?case by simp
next
  case (Cons heic rest)
  from Cons.prems have dr: "distinct rest" and hr: "heic \<notin> set rest" by simp_all
  show ?case
  proof (cases "discovered E w exts heic")
    case False
    with Cons.prems have run: "strip_convert_files E q del exts rest tot w = (r, w')" by simp
    from Cons.prems have "d \<in> set rest \<longrightarrow> exists w d" by simp
    from Cons.IH [OF run dr this] hr show ?thesis by (auto split: if_splits)
  next
    case True
    obtain r1 w1 where c: "strip_then_convert E (emit (Yield heic) w) heic q del = (r1, w1)"
      by (cases "strip_then_convert E (emit (Yield heic) w) heic q del")
    have "\<exists>evs1. log w1 = log w @ Yield heic # evs1
        \<and> (if heic = d then saves d evs1 = 0
            else saves d evs1 + (if exists w d then 1 else 0) \<le> (if exists w1 d then 1 else 0))"
    proof (cases "heic = d")
      case True
      with strip_then_convert_self [OF _ dd] c show ?thesis
        by (fastforce simp: emit_def)
    next
      case False
      with strip_then_convert_keeps [OF c] show ?thesis
        by (fastforce simp: emit_def exists_def)
    qed
    then obtain evs1 where
      e1: "log w1 = log w @ Yield heic # evs1"
          "heic = d \<longrightarrow> saves d evs1 = 0"
          "heic \<noteq> d \<longrightarrow>
             saves d evs1 + (if exists w d then 1 else 0) \<le> (if exists w1 d then 1 else 0)"
      by (auto split: if_splits)
    show ?thesis
    proof (cases "\<exists>e. r1 = Inl e \<and> (\<exists>e'. fst (report heic e w1) = Inl e')")
      case True
      then obtain e e' where r1: "r1 = Inl e" and rp: "fst (report heic e w1) = Inl e'"
        by blast
      then have "snd (report heic e w1) = w1"
        by (auto simp: report_def split: exn.splits sum.splits)
      with rp have "report heic e w1 = (Inl e', w1)"
        by (simp add: prod_eq_iff)
      with \<open>discovered E w exts heic\<close> c r1 Cons.prems have "w' = w1" by simp
      with e1 show ?thesis
        by (intro exI [of _ "Yield heic # evs1"]) (auto split: if_splits)
    next
      case False
      then obtain w2 tot2 where
        rest: "strip_convert_files E q del exts rest tot2 w2 = (r, w')" and
        w2: "w2 = w1 \<or> (\<exists>s. w2 = eprint s w1)"
        using \<open>discovered E w exts heic\<close> c Cons.prems
        by (cases r1)
           (auto simp: report_def split: prod.splits sum.splits exn.splits)
      from w2 obtain mid where
        mid: "log w2 = log w1 @ mid" "saves d mid = 0" "exists w2 d = exists w1 d"
        by (auto simp: eprint_def emit_def exists_def)
      have inv: "d \<in> set rest \<longrightarrow> exists w2 d"
      proof
        assume m: "d \<in> set rest"
        with hr have "heic \<noteq> d" by auto
        moreover from m Cons.prems have "exists w d" by simp
        ultimately have "exists w1 d" using e1(3) by (simp split: if_splits)
        with mid show "exists w2 d" by simp
      qed
      from Cons.IH [OF rest dr inv] obtain evs where
        e2: "log w' = log w2 @ evs"
            "saves d evs + (if exists w2 d then 1 else 0) \<le> 1 + (if d \<in> set rest then 1 else 0)"
        by blast
      from e1 e2 mid hr show ?thesis
        by (intro exI [of _ "Yield heic # evs1 @ mid @ evs"]) (auto split: if_splits)
    qed
  qed
qed

lemma at_most_one:
  "saves d evs + (if a then 1 else 0) \<le> (if b then 1 else (0::nat)) \<Longrightarrow> saves d evs \<le> 1"
  by (simp split: if_splits)

lemma convert_main_saves:
  assumes step: "\<And>w p r w'. conv w p = (r, w') \<Longrightarrow>
      \<exists>evs. log w' = log w @ evs
        \<and> saves d evs + (if exists w d then 1 else 0) \<le> (if exists w' d then 1 else 0)"
  shows "\<exists>evs. log (snd (convert_main conv E a w)) = log w @ evs \<and> saves d evs \<le> 1"
proof -
  obtain n w1 where l: "convert_files E conv (parse_exts E (ext a))
      (fst (entries E w (directory a) (recursive a))) 0 w = (n, w1)"
    by (cases "convert_files E conv (parse_exts E (ext a))
      (fst (entries E w (directory a) (recursive a))) 0 w")
  have "\<exists>evs. log w1 = log w @ evs
      \<and> saves d evs + (if exists w d then 1 else 0) \<le> (if exists w1 d then 1 else 0)"
    by (rule convert_files_keeps [where conv = conv, OF _ l]) (rule step)
  then obtain evs where e: "log w1 = log w @ evs" "saves d evs \<le> 1"
    using at_most_one by blast
  have "snd (convert_main conv E a w) = w \<or> snd (convert_main conv E a w) = w1
      \<or> (\<exists>s. snd (convert_main conv E a w) = print s w1)"
    using l by (auto simp: convert_main_def split: prod.splits option.splits)
  then show ?thesis
  proof (elim disjE exE)
    assume "snd (convert_main conv E a w) = w"
    then show ?thesis by (intro exI [of _ "[]"]) simp
  next
    assume "snd (convert_main conv E a w) = w1"
    with e show ?thesis by auto
  next
    fix s assume "snd (convert_main conv E a w) = print s w1"
    with e show ?thesis
      by (intro exI [of _ "evs @ [Stdout s]"]) (simp add: print_def emit_def)
  qed
qed

lemma strip_convert_main_saves:
  assumes dd: "with_suffix d ''.jpg'' = Inr d"
  shows "\<exists>evs. log (snd (strip_convert_main E a w)) = log w @ evs \<and> saves d evs \<le> 1"
proof -
  define es where "es = fst (entries E w (directory a) (recursive a))"
  obtain r w1 where l: "strip_convert_files E (quality a) (\<not> keep a) (parse_exts E (ext a))
      es 0 w = (r, w1)"
    by (cases "strip_convert_files E (quality a) (\<not> keep a) (parse_exts E (ext a)) es 0 w")
  have "distinct es" and "d \<in> set es \<longrightarrow> exists w d"
    using entries_snapshot [where E = E and w = w and root = "directory a" and rec = "recursive a"]
    by (auto simp: es_def)
  from strip_convert_files_saves [OF dd l this] obtain evs where
    "log w1 = log w @ evs"
    "saves d evs + (if exists w d then 1 else 0) \<le> 1 + (if d \<in> set es then 1 else 0)"
    by blast
  with \<open>d \<in> set es \<longrightarrow> exists w d\<close> have e: "log w1 = log w @ evs" "saves d evs \<le> 1"
    by (auto split: if_splits)
  have "snd (strip_convert_main E a w) = w \<or> snd (strip_convert_main E a w) = w1
      \<or> (\<exists>s. snd (strip_convert_main E a w) = print s w1)"
    using l by (auto simp: strip_convert_main_def es_def split: prod.splits option.splits sum.splits)
  then show ?thesis
  proof (elim disjE exE)
    assume "snd (strip_convert_main E a w) = w"
    then show ?thesis by (intro exI [of _ "[]"]) simp
  next
    assume "snd (strip_convert_main E a w) = w1"
    with e show ?thesis by auto
  next
    fix s assume "snd (strip_convert_main E a w) = print s w1"
    with e show ?thesis
      by (intro exI [of _ "evs @ [Stdout s]"]) (simp add: print_def emit_def)
  qed
qed

text \<open>The \<open>[SKIP]\<close> line of a call is printed exactly when the destination is there.\<close>

lemma line_shapes:
  "skip_line d \<noteq> ok_line s d'" "skip_line d \<noteq> deleted_line s"
  by (simp_all add: skip_line_def ok_line_def deleted_line_def)

lemma convert_skip_iff:
  assumes "with_suffix p ''.jpg'' = Inr d"
  shows "\<exists>evs. log (snd (convert E w p q del)) = log w @ evs
      \<and> (Stdout (skip_line d) \<in> set evs \<longleftrightarrow> exists w d) \<and> (exists w d \<longrightarrow> saves d evs = 0)"
proof -
  have "convert E w p q del = (fst (convert E w p q del), snd (convert E w p q del))"
    by simp
  from convert_effects [OF this assms] show ?thesis
    by (elim disjE conjE exE) (auto simp: print_def emit_def line_shapes)
qed

lemma sanitize_convert_skip_iff:
  assumes "with_suffix p ''.jpg'' = Inr d"
  shows "\<exists>evs. log (snd (sanitize_convert E w p q del)) = log w @ evs
      \<and> (Stdout (skip_line d) \<in> set evs \<longleftrightarrow> exists w d) \<and> (exists w d \<longrightarrow> saves d evs = 0)"
proof -
  have "sanitize_convert E w p q del
      = (fst (sanitize_convert E w p q del), snd (sanitize_convert E w p q del))"
    by simp
  from sanitize_convert_effects [OF this assms] show ?thesis
    by (elim disjE conjE exE) (auto simp: print_def emit_def line_shapes)
qed

lemma convert_to_jpg_skip_iff:
  assumes "with_suffix p ''.jpg'' = Inr d"
  shows "\<exists>evs. log (snd (convert_to_jpg E w p q del)) = log w @ evs
      \<and> (Stdout (skip_line d) \<in> set evs \<longleftrightarrow> exists w d) \<and> (exists w d \<longrightarrow> saves d evs = 0)"
proof -
  have "convert_to_jpg E w p q del
      = (fst (convert_to_jpg E w p q del), snd (convert_to_jpg E w p q del))"
    by simp
  from convert_to_jpg_effects [OF this assms] show ?thesis
    by (elim disjE conjE exE) (auto simp: print_def emit_def line_shapes)
qed

text \<open>
  C10, as amended. The destination of a source is its path with the suffix of the name
  replaced by \<open>.jpg\<close>, so two files of one directory that differ only in their suffix share a
  destination. In one run of heic\_to\_jpg.py, sanitize\_heic\_to\_jpg.py or
  heic\_strip\_and\_convert\_to\_jpg.py at most one output is written to a destination. A convert
  step prints the \<open>[SKIP]\<close> line of its destination exactly when the destination exists at the
  moment the step runs, and then writes nothing to it: the later of two such files is
  reported \<open>[SKIP]\<close> in that case, and in no other.
\<close>

theorem C10_same_destination:
  "(name p \<noteq> [] \<longrightarrow>
      (\<exists>stem. name p = stem @ suffix (name p)
         \<and> with_suffix p ''.jpg'' = Inr (butlast p @ [stem @ ''.jpg''])))
   \<and> (suffix (stem @ s1) = s1 \<and> s1 \<noteq> [] \<and> suffix (stem @ s2) = s2 \<and> s2 \<noteq> [] \<longrightarrow>
        with_suffix (dir @ [stem @ s1]) ''.jpg'' = Inr (dir @ [stem @ ''.jpg''])
      \<and> with_suffix (dir @ [stem @ s2]) ''.jpg'' = Inr (dir @ [stem @ ''.jpg'']))
   \<and> (with_suffix p ''.jpg'' = Inr d \<longrightarrow>
        (\<exists>evs. log (snd (heic_to_jpg_main E a w)) = log w @ evs \<and> saves d evs \<le> 1)
      \<and> (\<exists>evs. log (snd (sanitize_main E a w)) = log w @ evs \<and> saves d evs \<le> 1)
      \<and> (\<exists>evs. log (snd (strip_convert_main E a w)) = log w @ evs \<and> saves d evs \<le> 1)
      \<and> (\<exists>evs. log (snd (convert E w p q del)) = log w @ evs
            \<and> (Stdout (skip_line d) \<in> set evs \<longleftrightarrow> exists w d)
            \<and> (exists w d \<longrightarrow> saves d evs = 0))
      \<and> (\<exists>evs. log (snd (sanitize_convert E w p q del)) = log w @ evs
            \<and> (Stdout (skip_line d) \<in> set evs \<longleftrightarrow> exists w d)
            \<and> (exists w d \<longrightarrow> saves d evs = 0))
      \<and> (\<exists>evs. log (snd (convert_to_jpg E w p q del)) = log w @ evs
            \<and> (Stdout (skip_line d) \<in> set evs \<longleftrightarrow> exists w d)
            \<and> (exists w d \<longrightarrow> saves d evs = 0)))"
proof -
  have a: "name p \<noteq> [] \<longrightarrow>
      (\<exists>stem. name p = stem @ suffix (name p)
         \<and> with_suffix p ''.jpg'' = Inr (butlast p @ [stem @ ''.jpg'']))"
  proof
    assume "name p \<noteq> []"
    then have "with_suffix p ''.jpg''
        = Inr (butlast p @ [take (length (name p) - length (suffix (name p))) (name p) @ ''.jpg''])"
      by (simp add: with_suffix_def)
    with suffix_is_tail [of "name p"]
    show "\<exists>stem. name p = stem @ suffix (name p)
         \<and> with_suffix p ''.jpg'' = Inr (butlast p @ [stem @ ''.jpg''])"
      by blast
  qed
  have b: "suffix (stem @ s1) = s1 \<and> s1 \<noteq> [] \<and> suffix (stem @ s2) = s2 \<and> s2 \<noteq> [] \<longrightarrow>
      with_suffix (dir @ [stem @ s1]) ''.jpg'' = Inr (dir @ [stem @ ''.jpg''])
      \<and> with_suffix (dir @ [stem @ s2]) ''.jpg'' = Inr (dir @ [stem @ ''.jpg''])"
    using with_suffix_replaces by blast
  have c: "with_suffix p ''.jpg'' = Inr d \<longrightarrow>
        (\<exists>evs. log (snd (heic_to_jpg_main E a w)) = log w @ evs \<and> saves d evs \<le> 1)
      \<and> (\<exists>evs. log (snd (sanitize_main E a w)) = log w @ evs \<and> saves d evs \<le> 1)
      \<and> (\<exists>evs. log (snd (strip_convert_main E a w)) = log w @ evs \<and> saves d evs \<le> 1)
      \<and> (\<exists>evs. log (snd (convert E w p q del)) = log w @ evs
            \<and> (Stdout (skip_line d) \<in> set evs \<longleftrightarrow> exists w d)
            \<and> (exists w d \<longrightarrow> saves d evs = 0))
      \<and> (\<exists>evs. log (snd (sanitize_convert E w p q del)) = log w @ evs
            \<and> (Stdout (skip_line d) \<in> set evs \<longleftrightarrow> exists w d)
            \<and> (exists w d \<longrightarrow> saves d evs = 0))
      \<and> (\<exists>evs. log (snd (convert_to_jpg E w p q del)) = log w @ evs
            \<and> (Stdout (skip_line d) \<in> set evs \<longleftrightarrow> exists w d)
            \<and> (exists w d \<longrightarrow> saves d evs = 0))"
  proof
    assume pd: "with_suffix p ''.jpg'' = Inr d"
    note dd = with_suffix_idem [OF pd]
    have c1: "\<exists>evs. log (snd (heic_to_jpg_main E a w)) = log w @ evs \<and> saves d evs \<le> 1"
      unfolding heic_to_jpg_main_def
      by (rule convert_main_saves) (rule convert_keeps [OF _ dd])
    have c2: "\<exists>evs. log (snd (sanitize_main E a w)) = log w @ evs \<and> saves d evs \<le> 1"
      unfolding sanitize_main_def
      by (rule convert_main_saves) (rule sanitize_convert_keeps [OF _ dd])
    note c3 = strip_convert_main_saves [OF dd, of E a w]
    note c4 = convert_skip_iff [OF pd, of E w q del]
    note c5 = sanitize_convert_skip_iff [OF pd, of E w q del]
    note c6 = convert_to_jpg_skip_iff [OF pd, of E w q del]
    show "(\<exists>evs. log (snd (heic_to_jpg_main E a w)) = log w @ evs \<and> saves d evs \<le> 1)
      \<and> (\<exists>evs. log (snd (sanitize_main E a w)) = log w @ evs \<and> saves d evs \<le> 1)
      \<and> (\<exists>evs. log (snd (strip_convert_main E a w)) = log w @ evs \<and> saves d evs \<le> 1)
      \<and> (\<exists>evs. log (snd (convert E w p q del)) = log w @ evs
            \<and> (Stdout (skip_line d) \<in> set evs \<longleftrightarrow> exists w d)
            \<and> (exists w d \<longrightarrow> saves d evs = 0))
      \<and> (\<exists>evs. log (snd (sanitize_convert E w p q del)) = log w @ evs
            \<and> (Stdout (skip_line d) \<in> set evs \<longleftrightarrow> exists w d)
            \<and> (exists w d \<longrightarrow> saves d evs = 0))
      \<and> (\<exists>evs. log (snd (convert_to_jpg E w p q del)) = log w @ evs
            \<and> (Stdout (skip_line d) \<in> set evs \<longleftrightarrow> exists w d)
            \<and> (exists w d \<longrightarrow> saves d evs = 0))"
      by (intro conjI c1 c2 c3 c4 c5 c6)
  qed
  show ?thesis
    by (intro conjI a b c)
qed

text \<open>
  C10, the claim as stated fails: \<open>a.heic\<close> is corrupt and \<open>a.heif\<close> is sound. Both map to
  \<open>a.jpg\<close>; the earlier one fails, and the later one is converted, not skipped.
\<close>

theorem C10_counterexample:
  "with_suffix [''d'', ''a.heic''] ''.jpg'' = Inr [''d'', ''a.jpg'']
   \<and> with_suffix [''d'', ''a.heif''] ''.jpg'' = Inr [''d'', ''a.jpg'']
   \<and> log (snd (heic_to_jpg_main (test_env [[''d'', ''a.heic''], [''d'', ''a.heif'']]) test_args
                 test_world_twins))
     = [Yield [''d'', ''a.heic''], Opened [''d'', ''a.heic''],
        Stderr ''[ERROR] a.heic: cannot identify image file'',
        Yield [''d'', ''a.heif''], Opened [''d'', ''a.heif''], Saved [''d'', ''a.jpg''],
        Stdout (''[OK] a.heif '' @ [CHR 0xE2, CHR 0x86, CHR 0x92] @ '' a.jpg''),
        Stdout ''Done. Converted 1 file.'']"
  by code_simp


theorem C10_same_destination_witness:
  "name [''d'', ''a.heic''] \<noteq> []
   \<and> (\<exists>stem. name [''d'', ''a.heic''] = stem @ suffix (name [''d'', ''a.heic''])
         \<and> with_suffix [''d'', ''a.heic''] ''.jpg''
             = Inr (butlast [''d'', ''a.heic''] @ [stem @ ''.jpg'']))
   \<and> suffix (''a'' @ ''.heic'') = ''.heic'' \<and> suffix (''a'' @ ''.heif'') = ''.heif''
   \<and> with_suffix ([''d''] @ [''a'' @ ''.heic'']) ''.jpg'' = Inr ([''d''] @ [''a'' @ ''.jpg''])
   \<and> with_suffix ([''d''] @ [''a'' @ ''.heif'']) ''.jpg'' = Inr ([''d''] @ [''a'' @ ''.jpg''])
   \<and> with_suffix [''d'', ''a.heic''] ''.jpg'' = Inr [''d'', ''a.jpg'']
   \<and> (\<exists>evs. log (snd (heic_to_jpg_main (test_env [[''d'', ''a.heif''], [''d'', ''a.heic'']])
                        test_args test_world_twins))
             = log test_world_twins @ evs
           \<and> saves [''d'', ''a.jpg''] evs \<le> 1)
   \<and> log (snd (heic_to_jpg_main (test_env [[''d'', ''a.heif''], [''d'', ''a.heic'']])
                 test_args test_world_twins))
       = [Yield [''d'', ''a.heif''], Opened [''d'', ''a.heif''], Saved [''d'', ''a.jpg''],
          Stdout (''[OK] a.heif '' @ [CHR 0xE2, CHR 0x86, CHR 0x92] @ '' a.jpg''),
          Yield [''d'', ''a.heic''], Stdout ''[SKIP] a.jpg already exists'',
          Stdout ''Done. Converted 2 files.'']
   \<and> exists (snd (convert (test_env []) test_world_twins [''d'', ''a.heif''] 90 False))
        [''d'', ''a.jpg'']
   \<and> (\<exists>evs. log (snd (convert (test_env [])
                        (snd (convert (test_env []) test_world_twins [''d'', ''a.heif''] 90 False))
                        [''d'', ''a.heic''] 90 False))
             = log (snd (convert (test_env []) test_world_twins [''d'', ''a.heif''] 90 False)) @ evs
           \<and> (Stdout (skip_line [''d'', ''a.jpg'']) \<in> set evs
                \<longleftrightarrow> exists (snd (convert (test_env []) test_world_twins [''d'', ''a.heif''] 90
                                    False)) [''d'', ''a.jpg''])
           \<and> (exists (snd (convert (test_env []) test_world_twins [''d'', ''a.heif''] 90 False))
                 [''d'', ''a.jpg'']
                \<longrightarrow> saves [''d'', ''a.jpg''] evs = 0))
   \<and> skip_line [''d'', ''a.jpg''] = ''[SKIP] a.jpg already exists''"
proof -
  have nm: "name [''d'', ''a.heic''] \<noteq> []"
    by (simp add: name_def)
  have s1: "suffix (''a'' @ ''.heic'') = ''.heic''" and s2: "suffix (''a'' @ ''.heif'') = ''.heif''"
    by (simp_all add: suffix_def)
  have ne1: "''.heic'' \<noteq> []" and ne2: "''.heif'' \<noteq> []" by simp_all
  have pd: "with_suffix [''d'', ''a.heic''] ''.jpg'' = Inr [''d'', ''a.jpg'']"
    by (simp add: with_suffix_def name_def suffix_def)
  have run: "log (snd (heic_to_jpg_main (test_env [[''d'', ''a.heif''], [''d'', ''a.heic'']])
                 test_args test_world_twins))
       = [Yield [''d'', ''a.heif''], Opened [''d'', ''a.heif''], Saved [''d'', ''a.jpg''],
          Stdout (''[OK] a.heif '' @ [CHR 0xE2, CHR 0x86, CHR 0x92] @ '' a.jpg''),
          Yield [''d'', ''a.heic''], Stdout ''[SKIP] a.jpg already exists'',
          Stdout ''Done. Converted 2 files.'']"
    by code_simp
  have ex: "exists (snd (convert (test_env []) test_world_twins [''d'', ''a.heif''] 90 False))
        [''d'', ''a.jpg'']"
    by code_simp
  have sk: "skip_line [''d'', ''a.jpg''] = ''[SKIP] a.jpg already exists''"
    by (simp add: skip_line_def name_def)
  note T = C10_same_destination [where p = "[''d'', ''a.heic'']" and d = "[''d'', ''a.jpg'']"
      and stem = "''a''" and ?s1.0 = "''.heic''" and ?s2.0 = "''.heif''" and dir = "[''d'']"
      and E = "test_env [[''d'', ''a.heif''], [''d'', ''a.heic'']]" and a = test_args
      and w = test_world_twins]
  note U = C10_same_destination [where p = "[''d'', ''a.heic'']" and d = "[''d'', ''a.jpg'']"
      and E = "test_env []" and q = 90 and del = False
      and w = "snd (convert (test_env []) test_world_twins [''d'', ''a.heif''] 90 False)"]
  note t1 = T [THEN conjunct1, THEN mp, OF nm]
  note t2 = T [THEN conjunct2, THEN conjunct1, THEN mp, OF conjI [OF s1 conjI [OF ne1 conjI [OF s2 ne2]]]]
  note t3 = T [THEN conjunct2, THEN conjunct2, THEN mp, OF pd, THEN conjunct1]
  note u4 = U [THEN conjunct2, THEN conjunct2, THEN mp, OF pd, THEN conjunct2, THEN conjunct2,
      THEN conjunct2, THEN conjunct1]
  show ?thesis
    by (intro conjI nm t1 s1 s2 t2 [THEN conjunct1] t2 [THEN conjunct2] pd t3 run ex u4 sk)
qed

end
